theory Spec2Isabelle
  imports Main
begin

section \<open>Data model of package clickonce\<close>

text \<open>
  A Go byte slice and a Go string are both sequences of bytes; an Isabelle
  \<open>char\<close> is one byte.
\<close>

type_synonym bytes = "char list"

datatype coType = AssemblyDependency | NonAssemblyFile

record DeployedFile =
  Type :: coType
  Content :: bytes

text \<open>
  The fields of \<open>net/url.URL\<close> that parsing and resolving fill in. The program reads
  \<open>Path\<close> and \<open>Fragment\<close> and otherwise hands URLs back to the library.
\<close>

record URL =
  Scheme :: string
  Host :: string
  Path :: string
  RawQuery :: string
  Fragment :: string

text \<open>
  Go errors as values. The first group are the errors the package creates itself with
  \<open>errors.New\<close> and \<open>fmt.Errorf\<close>; \<open>ErrSyntax\<close> and \<open>ErrRange\<close> are the two
  \<open>strconv.NumError\<close>s of \<open>strconv.Atoi\<close>; \<open>LibraryError\<close> is an error returned
  by \<open>net/http\<close>, \<open>net/url\<close>, \<open>encoding/xml\<close>, \<open>io/ioutil\<close> or \<open>os\<close>, with its
  message: such an error is never one of the package's own.
\<close>

datatype error =
    MissingApplicationUrl
  | NoApplicationAvailable string
  | ApplicationFileEmpty
  | EmptyFilenameInSubset
  | NotInitialized
  | NoneOfRequestedFound
  | NotAllRequestedFound
  | AlgorithmNotSupported string string
  | NoFileAvailable string
  | SizeMismatch string int nat
  | DigestMismatch string
  | ErrSyntax string
  | ErrRange string
  | LibraryError string

record remoteFile =
  url :: URL
  size_r :: int
  digest :: string
  algorithm :: string

record coDigestMethod =
  Algorithm :: string

record coHash =
  DigestMethod :: coDigestMethod
  DigestValue :: string

record coBase =
  Size :: string
  Hash :: coHash

text \<open>Go embeds \<open>coBase\<close> in both entry structs; the embedded struct is the field \<open>base\<close>.\<close>

record coFile =
  base :: coBase
  Name :: string

record coDependentAssembly =
  dbase :: coBase
  Codebase :: string
  DependencyType :: string
  AllowDelayedBinding :: string

record coAssembly =
  File :: "coFile list"
  DependentAssembly :: "coDependentAssembly list"

text \<open>
  An HTTP response as the program sees it: the status code, the outcome of reading the
  body to its end and closing it (the bytes, or the message of the error), and the URL
  of the request that was answered (after redirects).
\<close>

record response =
  StatusCode :: int
  Body :: "string + bytes"
  RequestURL :: URL

text \<open>
  The session. \<open>deployedFiles\<close> is a Go map; it is kept as an association list with
  unique keys, a new key going to the end, so that the loops over it have an order (Go
  leaves the order open). A nil map and an empty map are both \<open>[]\<close>. The subset map
  distinguishes nil (\<open>None\<close>) from allocated. The logger only receives messages and is
  left out. The last three fields are not fields of the Go struct: \<open>requests\<close> lists the
  URLs of the requests handed to the HTTP client so far, \<open>written\<close> the files written so
  far, and \<open>rebasedTo\<close> the URLs assigned to \<open>co.baseUrl\<close> by \<open>retrieveDeployedFile\<close>
  (line 322) so far, each list in the order of the events.
\<close>

record ClickOnce =
  deployedFiles :: "(string \<times> DeployedFile) list"
  subset_co :: "(string \<rightharpoonup> bool) option"
  baseUrl :: "URL option"
  assembly :: "coAssembly option"
  outputDir :: string
  noSuffix :: bool
  offline :: bool
  notFound :: nat
  requests :: "string list"
  written :: "(string \<times> bytes) list"
  rebasedTo :: "URL list"

text \<open>The width of the Go type \<open>int\<close>, \<open>strconv.IntSize\<close>: 32 or 64 bits.\<close>

datatype wordSize = Bits32 | Bits64

definition bitsOf :: "wordSize \<Rightarrow> nat" where
  "bitsOf w = (case w of Bits32 \<Rightarrow> 32 | Bits64 \<Rightarrow> 64)"

text \<open>
  What the program calls and does not define: the platform, the HTTP client, the XML
  decoder, URL parsing, resolving and printing, lower-casing, the digests and their
  base64 text, path joining and the file system. Every function below takes them as one
  record. A call that fails gives the message of its error.

  \<open>http_NewRequest\<close> is \<open>http.NewRequest("GET", url, nil)\<close>, which refuses a URL it
  cannot parse; \<open>http_Get\<close> is \<open>http.DefaultClient.Do\<close> on the request for that URL.
  \<open>URL_Parse\<close> is the method \<open>(*URL).Parse\<close> on a receiver that is not nil and
  \<open>URL_Parse_nil\<close> the same method on a nil receiver: there it returns the error of a
  reference that does not parse and the URL of a reference that has a scheme, and panics
  otherwise (\<open>None\<close>). \<open>strings_ToLower\<close> is \<open>strings.ToLower\<close>, and \<open>IntSize\<close> is
  the width of \<open>int\<close>.
\<close>

record env =
  IntSize :: wordSize
  http_NewRequest :: "string \<Rightarrow> string option"
  http_Get :: "string \<Rightarrow> string + response"
  xml_Decode :: "bytes \<Rightarrow> string + coAssembly"
  url_Parse :: "string \<Rightarrow> string + URL"
  URL_Parse :: "URL \<Rightarrow> string \<Rightarrow> string + URL"
  URL_Parse_nil :: "string \<Rightarrow> (string + URL) option"
  URL_String :: "URL \<Rightarrow> string"
  strings_ToLower :: "string \<Rightarrow> string"
  sha1_Sum :: "bytes \<Rightarrow> bytes"
  sha256_Sum256 :: "bytes \<Rightarrow> bytes"
  base64_EncodeToString :: "bytes \<Rightarrow> string"
  path_Join :: "string \<Rightarrow> string \<Rightarrow> string"
  path_Dir :: "string \<Rightarrow> string"
  os_MkdirAll :: "string \<Rightarrow> string option"
  os_WriteFile :: "string \<Rightarrow> bytes \<Rightarrow> string option"

definition manifestExtension :: string where
  "manifestExtension = ''.manifest''"

definition deployedFileExtension :: string where
  "deployedFileExtension = ''.deploy''"

definition StatusNotFound :: int where
  "StatusNotFound = 404"

section \<open>String functions of the Go library\<close>

text \<open>\<open>strings.Replace(s, "\\", "/", -1)\<close>: every backslash becomes a slash.\<close>

definition backslashToSlash :: "string \<Rightarrow> string" where
  "backslashToSlash s = map (\<lambda>c. if c = CHR 0x5C then CHR ''/'' else c) s"

text \<open>
  \<open>path.Base\<close>: the last element of a slash-separated path, after trailing slashes are
  removed; \<open>"."\<close> for the empty path and \<open>"/"\<close> for a path of slashes only.
  \<open>filepath.Base\<close> is the same function where the separator is the slash.
\<close>

definition path_Base :: "string \<Rightarrow> string" where
  "path_Base p =
     (if p = [] then ''.''
      else let stripped = rev (dropWhile (\<lambda>c. c = CHR ''/'') (rev p));
               last_el = rev (takeWhile (\<lambda>c. c \<noteq> CHR ''/'') (rev stripped))
           in if last_el = [] then ''/'' else last_el)"

text \<open>
  \<open>path.Ext\<close> walks back from the end of the path to the last slash and returns the
  suffix that starts at the first dot it meets, or the empty string.
\<close>

fun ext_from_end :: "string \<Rightarrow> string \<Rightarrow> string" where
  "ext_from_end seen [] = []"
| "ext_from_end seen (c # cs) =
     (if c = CHR ''/'' then []
      else if c = CHR ''.'' then c # seen
      else ext_from_end (c # seen) cs)"

definition path_Ext :: "string \<Rightarrow> string" where
  "path_Ext p = ext_from_end [] (rev p)"

definition HasSuffix :: "string \<Rightarrow> string \<Rightarrow> bool" where
  "HasSuffix s suffix \<longleftrightarrow>
     length suffix \<le> length s \<and> drop (length s - length suffix) s = suffix"

definition TrimSuffix :: "string \<Rightarrow> string \<Rightarrow> string" where
  "TrimSuffix s suffix =
     (if HasSuffix s suffix then take (length s - length suffix) s else s)"

text \<open>
  \<open>strconv.Atoi\<close>. The function is \<open>ParseInt(s, 10, 0)\<close> (its fast path for short
  strings gives the same results). \<open>ParseInt\<close> takes a leading sign off and hands the
  rest to \<open>ParseUint\<close>, which reads the bytes from left to right: a byte that is no
  decimal digit ends it with the syntax error, and a digit that takes the value above
  \<open>2^bitSize - 1\<close> ends it with the range error and that bound as value, in both cases
  without a look at the bytes that follow. \<open>ParseInt\<close> returns at a syntax error and
  otherwise compares the value with \<open>2^(bitSize - 1)\<close>. The bit size is the width of
  \<open>int\<close>.
\<close>

datatype numError = SyntaxError | RangeError

definition isDigit :: "char \<Rightarrow> bool" where
  "isDigit c \<longleftrightarrow> 48 \<le> (of_char c :: int) \<and> (of_char c :: int) \<le> 57"

fun ParseUint_loop :: "int \<Rightarrow> int \<Rightarrow> string \<Rightarrow> int \<times> numError option" where
  "ParseUint_loop maxVal n [] = (n, None)"
| "ParseUint_loop maxVal n (c # cs) =
     (if \<not> isDigit c then (0, Some SyntaxError)
      else if maxVal < n * 10 + (of_char c - 48) then (maxVal, Some RangeError)
      else ParseUint_loop maxVal (n * 10 + (of_char c - 48)) cs)"

definition ParseUint :: "nat \<Rightarrow> string \<Rightarrow> int \<times> numError option" where
  "ParseUint bitSize s =
     (if s = [] then (0, Some SyntaxError) else ParseUint_loop (2 ^ bitSize - 1) 0 s)"

definition ParseInt :: "nat \<Rightarrow> string \<Rightarrow> numError + int" where
  "ParseInt bitSize s0 =
     (case s0 of
        [] \<Rightarrow> Inl SyntaxError
      | c # cs \<Rightarrow>
          let neg = (c = CHR ''-'');
              s = (if c = CHR ''+'' \<or> c = CHR ''-'' then cs else s0)
          in (case ParseUint bitSize s of
                (un, Some SyntaxError) \<Rightarrow> Inl SyntaxError
              | (un, _) \<Rightarrow>
                  let cutoff = 2 ^ (bitSize - 1)
                  in if \<not> neg \<and> cutoff \<le> un then Inl RangeError
                     else if neg \<and> cutoff < un then Inl RangeError
                     else Inr (if neg then - un else un)))"

definition Atoi :: "wordSize \<Rightarrow> string \<Rightarrow> error + int" where
  "Atoi w s =
     (case ParseInt (bitsOf w) s of
        Inl SyntaxError \<Rightarrow> Inl (ErrSyntax s)
      | Inl RangeError \<Rightarrow> Inl (ErrRange s)
      | Inr n \<Rightarrow> Inr n)"

section \<open>Resolving an entry\<close>

text \<open>\<open>isManifest\<close>: the file name has the manifest extension.\<close>

definition isManifest :: "string \<Rightarrow> bool" where
  "isManifest filename \<longleftrightarrow> path_Ext filename = manifestExtension"

text \<open>\<open>decodeManifest\<close> hands the data to the XML decoder.\<close>

definition decodeManifest :: "env \<Rightarrow> bytes \<Rightarrow> error + coAssembly" where
  "decodeManifest E data =
     (case xml_Decode E data of
        Inl msg \<Rightarrow> Inl (LibraryError msg)
      | Inr asm \<Rightarrow> Inr asm)"

text \<open>
  \<open>remoteFileInfo\<close>: the size is parsed with \<open>Atoi\<close>, the algorithm is the lower-cased
  fragment of the algorithm URI, the digest is copied.
\<close>

definition remoteFileInfo :: "env \<Rightarrow> URL \<Rightarrow> coBase \<Rightarrow> error + remoteFile" where
  "remoteFileInfo E deployedFileUrl deployedFile =
     (case Atoi (IntSize E) (Size deployedFile) of
        Inl err \<Rightarrow> Inl err
      | Inr sz \<Rightarrow>
          (case url_Parse E (Algorithm (DigestMethod (Hash deployedFile))) of
             Inl msg \<Rightarrow> Inl (LibraryError msg)
           | Inr alg \<Rightarrow>
               Inr \<lparr>url = deployedFileUrl, size_r = sz,
                    digest = DigestValue (Hash deployedFile),
                    algorithm = strings_ToLower E (Fragment alg)\<rparr>))"

section \<open>Download and check\<close>

text \<open>
  \<open>download\<close> builds one GET request and hands it to the HTTP client; a request that is
  handed over is added to the list of requests, one that cannot be built is not.
\<close>

definition download :: "env \<Rightarrow> string \<Rightarrow> string list \<Rightarrow> (error + response) \<times> string list" where
  "download E u rq =
     (case http_NewRequest E u of
        Some msg \<Rightarrow> (Inl (LibraryError msg), rq)
      | None \<Rightarrow>
          (case http_Get E u of
             Inl msg \<Rightarrow> (Inl (LibraryError msg), rq @ [u])
           | Inr res \<Rightarrow> (Inr res, rq @ [u])))"

text \<open>
  Lines 480 to 511 of \<open>downloadAndCheck\<close>: the download URL, the request, and the second
  request after a 404. The result is the error returned from inside this part, or the
  response \<open>res\<close> that the rest of the function reads, with the value of \<open>suffix\<close>.

  Inside the 404 branch the source declares \<open>res, err := download(downloadUrl)\<close>: these
  are new variables of that block, so when the block is left \<open>res\<close> is again the
  response to the first request.
\<close>

definition fetchResponse ::
  "env \<Rightarrow> remoteFile \<Rightarrow> bool \<Rightarrow> string list \<Rightarrow> ((error + response) \<times> bool) \<times> string list" where
  "fetchResponse E file suffix rq =
     (let downloadUrl =
            (if suffix \<and> \<not> isManifest (path_Base (Path (url file)))
             then URL_String E (url file) @ deployedFileExtension
             else URL_String E (url file))
      in case download E downloadUrl rq of
           (Inl err, rq1) \<Rightarrow> ((Inl err, suffix), rq1)
         | (Inr res, rq1) \<Rightarrow>
             if StatusCode res = StatusNotFound then
               (let downloadUrl2 = TrimSuffix downloadUrl (path_Ext downloadUrl)
                in case download E downloadUrl2 rq1 of
                     (Inl err, rq2) \<Rightarrow> ((Inl err, suffix), rq2)
                   | (Inr res2, rq2) \<Rightarrow>
                       if StatusCode res2 = StatusNotFound
                       then ((Inl (NoFileAvailable downloadUrl2), suffix), rq2)
                       else ((Inr res, False), rq2))
             else ((Inr res, suffix), rq1))"

text \<open>
  Lines 513 to 544: the body of \<open>res\<close> is read, its length compared with the size and
  its digest with the expected digest. The Go function returns three values: the body
  (nil with an error), \<open>suffix\<close>, and the error (nil on success).
\<close>

definition checkBody ::
  "env \<Rightarrow> remoteFile \<Rightarrow> string \<Rightarrow> response \<Rightarrow> bool \<Rightarrow> bytes \<times> bool \<times> error option" where
  "checkBody E file filename res suffix =
     (case Body res of
        Inl msg \<Rightarrow> ([], suffix, Some (LibraryError msg))
      | Inr body \<Rightarrow>
          if size_r file \<noteq> int (length body)
          then ([], suffix, Some (SizeMismatch filename (size_r file) (length body)))
          else let checksum = (if algorithm file = ''sha1'' then sha1_Sum E body
                               else sha256_Sum256 E body)
               in if digest file \<noteq> base64_EncodeToString E checksum
                  then ([], suffix, Some (DigestMismatch filename))
                  else (body, suffix, None))"

definition downloadAndCheck ::
  "env \<Rightarrow> remoteFile \<Rightarrow> bool \<Rightarrow> string list \<Rightarrow> (bytes \<times> bool \<times> error option) \<times> string list" where
  "downloadAndCheck E file suffix rq =
     (let filename = path_Base (Path (url file))
      in if algorithm file \<noteq> ''sha1'' \<and> algorithm file \<noteq> ''sha256''
         then (([], suffix, Some (AlgorithmNotSupported (algorithm file) filename)), rq)
         else case fetchResponse E file suffix rq of
                ((Inl err, suffix1), rq1) \<Rightarrow> (([], suffix1, Some err), rq1)
              | ((Inr res, suffix1), rq1) \<Rightarrow> (checkBody E file filename res suffix1, rq1))"

section \<open>Go maps as association lists\<close>

text \<open>\<open>m[k] = v\<close>: the value of an existing key is replaced, a new key goes to the end.\<close>

fun assign :: "('k \<times> 'v) list \<Rightarrow> 'k \<Rightarrow> 'v \<Rightarrow> ('k \<times> 'v) list" where
  "assign [] k v = [(k, v)]"
| "assign ((k', v') # m) k v = (if k' = k then (k, v) # m else (k', v') # assign m k v)"

text \<open>\<open>m != nil\<close> on the subset map.\<close>

definition notNil :: "(string \<rightharpoonup> bool) option \<Rightarrow> bool" where
  "notNil sm \<longleftrightarrow> (case sm of None \<Rightarrow> False | Some m \<Rightarrow> True)"

text \<open>\<open>_, ok := m[k]\<close> on the subset map; a nil map has no key.\<close>

definition hasKey :: "(string \<rightharpoonup> bool) option \<Rightarrow> string \<Rightarrow> bool" where
  "hasKey sm k \<longleftrightarrow> (case sm of None \<Rightarrow> False | Some m \<Rightarrow> m k \<noteq> None)"

text \<open>\<open>m[k]\<close> as a value on the subset map: false for a missing key and for a nil map.\<close>

definition flagOf :: "(string \<rightharpoonup> bool) option \<Rightarrow> string \<Rightarrow> bool" where
  "flagOf sm k \<longleftrightarrow> (case sm of None \<Rightarrow> False | Some m \<Rightarrow> (case m k of None \<Rightarrow> False | Some b \<Rightarrow> b))"

section \<open>Traversal\<close>

text \<open>
  Lines 294 to 350 of \<open>retrieveDeployedFile\<close>, everything before the descent into a
  downloaded manifest. The outcome is \<open>Returned err\<close> where the source returns
  (\<open>None\<close> for nil), or \<open>Downloaded manifest content\<close> when line 352 is reached.
  Where \<open>co.baseUrl.Parse\<close> panics, which only a nil base URL can make it do, the step
  has no outcome.
\<close>

datatype stepOutcome = Returned "error option" | Downloaded bool bytes

text \<open>\<open>co.baseUrl.Parse(ref)\<close>, the method called on the base URL of the session.\<close>

definition baseUrl_Parse :: "env \<Rightarrow> URL option \<Rightarrow> string \<Rightarrow> (string + URL) option" where
  "baseUrl_Parse E b ref =
     (case b of
        None \<Rightarrow> URL_Parse_nil E ref
      | Some u \<Rightarrow> Some (URL_Parse E u ref))"

definition retrieveStep ::
  "env \<Rightarrow> ClickOnce \<Rightarrow> string \<Rightarrow> coBase \<Rightarrow> coType \<Rightarrow> (stepOutcome \<times> ClickOnce) option" where
  "retrieveStep E co deployedFilePath deployedFile deployedFileType =
     (if deployedFilePath = [] then Some (Returned None, co)
      else
        let deployedFilePosixPath = backslashToSlash deployedFilePath;
            deployedFileName = path_Base deployedFilePosixPath;
            manifest = isManifest deployedFileName
        in if notNil (subset_co co) \<and> \<not> manifest \<and> \<not> hasKey (subset_co co) deployedFileName
           then Some (Returned None, co)
           else if map_of (deployedFiles co) deployedFilePath \<noteq> None
           then Some (Returned None, co)
           else
             (case baseUrl_Parse E (baseUrl co) deployedFilePosixPath of
                None \<Rightarrow> None
              | Some (Inl msg) \<Rightarrow> Some (Returned (Some (LibraryError msg)), co)
              | Some (Inr deployedFileUrl) \<Rightarrow>
                  let co1 = (if deployedFileType = AssemblyDependency \<and> manifest
                             then co\<lparr>baseUrl := Some deployedFileUrl,
                                     rebasedTo := rebasedTo co @ [deployedFileUrl]\<rparr>
                             else co)
                  in (case remoteFileInfo E deployedFileUrl deployedFile of
                        Inl err \<Rightarrow> Some (Returned (Some err), co1)
                      | Inr rf \<Rightarrow>
                          (case downloadAndCheck E rf (\<not> noSuffix co1) (requests co1) of
                             ((deployedFileContent, suffix, Some err), rq) \<Rightarrow>
                               Some (Returned (Some err), co1\<lparr>requests := rq\<rparr>)
                           | ((deployedFileContent, suffix, None), rq) \<Rightarrow>
                               let co2 = co1\<lparr>requests := rq, noSuffix := \<not> suffix,
                                            deployedFiles :=
                                              assign (deployedFiles co1) deployedFilePath
                                                \<lparr>Type = deployedFileType,
                                                 Content = deployedFileContent\<rparr>\<rparr>;
                                   co3 = (case subset_co co2 of
                                            None \<Rightarrow> co2
                                          | Some m \<Rightarrow>
                                              co2\<lparr>subset_co := Some (m(deployedFileName \<mapsto> True))\<rparr>)
                               in Some (Downloaded manifest deployedFileContent, co3)))))"

text \<open>
  The four functions below call each other as in the source. A manifest that is
  downloaded names further manifests, and the server decides what they contain, so the
  recursion need not end: the first argument bounds the depth of nested manifests, and
  the result \<open>None\<close> says that the call does not return (the bound is reached, or the
  panic above). Otherwise the result is the returned error (\<open>None\<close> for nil) and the
  session after the call. The two loops of \<open>retrieveAllDeployedFiles\<close> are
  \<open>dependentLoop\<close> and \<open>fileLoop\<close>; their flag says that the loop has executed the
  \<open>return\<close> in its body.
\<close>

function (sequential) retrieveDeployedFile ::
      "nat \<Rightarrow> env \<Rightarrow> ClickOnce \<Rightarrow> string \<Rightarrow> coBase \<Rightarrow> coType \<Rightarrow> (error option \<times> ClickOnce) option"
  and subApplication ::
      "nat \<Rightarrow> env \<Rightarrow> ClickOnce \<Rightarrow> bytes \<Rightarrow> (error option \<times> ClickOnce) option"
  and retrieveAllDeployedFiles ::
      "nat \<Rightarrow> env \<Rightarrow> ClickOnce \<Rightarrow> coAssembly \<Rightarrow> (error option \<times> ClickOnce) option"
  and dependentLoop ::
      "nat \<Rightarrow> env \<Rightarrow> ClickOnce \<Rightarrow> coDependentAssembly list \<Rightarrow> (bool \<times> ClickOnce) option"
  and fileLoop ::
      "nat \<Rightarrow> env \<Rightarrow> ClickOnce \<Rightarrow> coFile list \<Rightarrow> (bool \<times> ClickOnce) option"
where
  "retrieveDeployedFile n E co deployedFilePath deployedFile deployedFileType =
     (case retrieveStep E co deployedFilePath deployedFile deployedFileType of
        None \<Rightarrow> None
      | Some (Returned err, co1) \<Rightarrow> Some (err, co1)
      | Some (Downloaded manifest deployedFileContent, co1) \<Rightarrow>
          if manifest then subApplication n E co1 deployedFileContent
          else Some (None, co1))"
| "subApplication n E co manifestContent =
     (case decodeManifest E manifestContent of
        Inl err \<Rightarrow> Some (Some err, co)
      | Inr asm \<Rightarrow>
          (case n of
             0 \<Rightarrow> None
           | Suc k \<Rightarrow> retrieveAllDeployedFiles k E co asm))"
| "retrieveAllDeployedFiles n E co asm =
     (case dependentLoop n E co (DependentAssembly asm) of
        None \<Rightarrow> None
      | Some (returned, co1) \<Rightarrow>
          if returned then Some (None, co1)
          else (case fileLoop n E co1 (File asm) of
                  None \<Rightarrow> None
                | Some (returned2, co2) \<Rightarrow> Some (None, co2)))"
| "dependentLoop n E co [] = Some (False, co)"
| "dependentLoop n E co (dependentAssembly # rest) =
     (if DependencyType dependentAssembly \<noteq> ''install'' then dependentLoop n E co rest
      else
        (case retrieveDeployedFile n E co (Codebase dependentAssembly) (dbase dependentAssembly)
                AssemblyDependency of
           None \<Rightarrow> None
         | Some (err, co1) \<Rightarrow>
             if err \<noteq> None then Some (True, co1) else dependentLoop n E co1 rest))"
| "fileLoop n E co [] = Some (False, co)"
| "fileLoop n E co (f # rest) =
     (case retrieveDeployedFile n E co (Name f) (base f) NonAssemblyFile of
        None \<Rightarrow> None
      | Some (err, co1) \<Rightarrow>
          if err \<noteq> None then Some (True, co1) else fileLoop n E co1 rest)"
  by pat_completeness auto

termination
  by (relation "inv_image (less_than <*lex*> less_than)
        (\<lambda>x. case x of
           Inl (Inl (n, E, co, p, f, t)) \<Rightarrow> (n, Suc 0)
         | Inl (Inr (n, E, co, c)) \<Rightarrow> (n, 0)
         | Inr (Inl (n, E, co, asm)) \<Rightarrow>
             (n, 3 + length (DependentAssembly asm) + length (File asm))
         | Inr (Inr (Inl (n, E, co, l))) \<Rightarrow> (n, 2 + length l)
         | Inr (Inr (Inr (n, E, co, l))) \<Rightarrow> (n, 2 + length l))")
     auto

section \<open>Subsets and saving\<close>

text \<open>
  \<open>initSubset\<close> allocates a new subset map and enters every name with the flag false;
  at an empty name it returns the error, and the map keeps the names entered so far.
\<close>

fun initSubset_loop :: "(string \<rightharpoonup> bool) \<Rightarrow> string list \<Rightarrow> error option \<times> (string \<rightharpoonup> bool)" where
  "initSubset_loop m [] = (None, m)"
| "initSubset_loop m (s # rest) =
     (if s = [] then (Some EmptyFilenameInSubset, m)
      else initSubset_loop (m(s \<mapsto> False)) rest)"

definition initSubset :: "ClickOnce \<Rightarrow> string list \<Rightarrow> error option \<times> ClickOnce" where
  "initSubset co requested =
     (case initSubset_loop Map.empty requested of
        (err, m) \<Rightarrow> (err, co\<lparr>subset_co := Some m\<rparr>))"

text \<open>
  \<open>checkDownload\<close> sets the flag of every subset name that is the file name of a key
  of \<open>deployedFiles\<close>.
\<close>

fun checkDownload_loop :: "(string \<rightharpoonup> bool) \<Rightarrow> string list \<Rightarrow> (string \<rightharpoonup> bool)" where
  "checkDownload_loop m [] = m"
| "checkDownload_loop m (deployedFilePath # rest) =
     (let codebase = backslashToSlash deployedFilePath;
          deployedFileName = path_Base codebase
      in checkDownload_loop
           (if m deployedFileName \<noteq> None then m(deployedFileName \<mapsto> True) else m) rest)"

definition checkDownload :: "ClickOnce \<Rightarrow> ClickOnce" where
  "checkDownload co =
     (case subset_co co of
        None \<Rightarrow> co
      | Some m \<Rightarrow> co\<lparr>subset_co := Some (checkDownload_loop m (map fst (deployedFiles co)))\<rparr>)"

text \<open>
  \<open>findSubset\<close> counts in \<open>notFound\<close> the requested names whose flag is not set and
  fails when the count reaches the number of requested names.
\<close>

fun findSubset_loop :: "ClickOnce \<Rightarrow> string list \<Rightarrow> ClickOnce" where
  "findSubset_loop co [] = co"
| "findSubset_loop co (s # rest) =
     findSubset_loop
       (if \<not> flagOf (subset_co co) s then co\<lparr>notFound := notFound co + 1\<rparr> else co) rest"

definition findSubset :: "ClickOnce \<Rightarrow> string list \<Rightarrow> error option \<times> ClickOnce" where
  "findSubset co requested =
     (let co1 = findSubset_loop co requested
      in (if notFound co1 = length requested then Some NoneOfRequestedFound else None, co1))"

text \<open>
  \<open>saveDeployedFile\<close> writes one file below the output directory unless a subset map
  exists and lacks the file name.
\<close>

definition saveDeployedFile :: "env \<Rightarrow> ClickOnce \<Rightarrow> string \<Rightarrow> bytes \<Rightarrow> error option \<times> ClickOnce" where
  "saveDeployedFile E co deployedFilePath deployedFileContent =
     (let codebase = backslashToSlash deployedFilePath;
          deployedFileName = path_Base codebase
      in if notNil (subset_co co) \<and> \<not> hasKey (subset_co co) deployedFileName then (None, co)
         else
           (case os_MkdirAll E (path_Dir E (path_Join E (outputDir co) codebase)) of
              Some msg \<Rightarrow> (Some (LibraryError msg), co)
            | None \<Rightarrow>
                (case os_WriteFile E (path_Join E (outputDir co) codebase) deployedFileContent of
                   Some msg \<Rightarrow> (Some (LibraryError msg), co)
                 | None \<Rightarrow>
                     (None, co\<lparr>written := written co @
                                   [(path_Join E (outputDir co) codebase, deployedFileContent)]\<rparr>))))"

fun saveAll_loop :: "env \<Rightarrow> ClickOnce \<Rightarrow> (string \<times> DeployedFile) list \<Rightarrow> error option \<times> ClickOnce" where
  "saveAll_loop E co [] = (None, co)"
| "saveAll_loop E co ((deployedFilePath, deployedFile) # rest) =
     (case saveDeployedFile E co deployedFilePath (Content deployedFile) of
        (Some err, co1) \<Rightarrow> (Some err, co1)
      | (None, co1) \<Rightarrow> saveAll_loop E co1 rest)"

definition saveAllDeployedFiles :: "env \<Rightarrow> ClickOnce \<Rightarrow> error option \<times> ClickOnce" where
  "saveAllDeployedFiles E co = saveAll_loop E co (deployedFiles co)"

section \<open>Public operations\<close>

text \<open>
  \<open>Get\<close>, in the order of the source. The part after the traversal (lines 251 to 271)
  is \<open>Get_finish\<close>. The argument \<open>subset\<close> is \<open>requested\<close>; a nil or empty slice is the empty list.
\<close>

definition Get_finish :: "env \<Rightarrow> ClickOnce \<Rightarrow> string list \<Rightarrow> error option \<times> ClickOnce" where
  "Get_finish E co requested =
     (let validSubset = (requested \<noteq> []);
          co1 = co\<lparr>notFound := 0\<rparr>
      in case (if validSubset then findSubset co1 requested else (None, co1)) of
           (Some err, co2) \<Rightarrow> (Some err, co2)
         | (None, co2) \<Rightarrow>
             (case (if outputDir co2 \<noteq> [] then saveAllDeployedFiles E co2 else (None, co2)) of
                (Some err, co3) \<Rightarrow> (Some err, co3)
              | (None, co3) \<Rightarrow>
                  if validSubset \<and> notFound co3 \<noteq> 0 then (Some NotAllRequestedFound, co3)
                  else (None, co3)))"

definition Get :: "nat \<Rightarrow> env \<Rightarrow> ClickOnce \<Rightarrow> string list \<Rightarrow> (error option \<times> ClickOnce) option" where
  "Get n E co requested =
     (case (baseUrl co, assembly co) of
        (None, _) \<Rightarrow> Some (Some NotInitialized, co)
      | (Some b, None) \<Rightarrow> Some (Some NotInitialized, co)
      | (Some b, Some asm) \<Rightarrow>
          let validSubset = (requested \<noteq> [])
          in (case (if validSubset then initSubset co requested else (None, co)) of
                (Some err, co1) \<Rightarrow> Some (Some err, co1)
              | (None, co1) \<Rightarrow>
                  if \<not> offline co1 then
                    (case retrieveAllDeployedFiles n E co1 asm of
                       None \<Rightarrow> None
                     | Some (Some err, co2) \<Rightarrow> Some (Some err, co2)
                     | Some (None, co2) \<Rightarrow> Some (Get_finish E co2 requested))
                  else Some (Get_finish E (if validSubset then checkDownload co1 else co1) requested)))"

definition GetAll :: "nat \<Rightarrow> env \<Rightarrow> ClickOnce \<Rightarrow> (error option \<times> ClickOnce) option" where
  "GetAll n E co =
     (case Get n E co [] of
        None \<Rightarrow> None
      | Some (Some err, co1) \<Rightarrow> Some (Some err, co1)
      | Some (None, co1) \<Rightarrow> Some (None, co1\<lparr>offline := True\<rparr>))"

definition SetOutputDir :: "ClickOnce \<Rightarrow> string \<Rightarrow> ClickOnce" where
  "SetOutputDir co dir = co\<lparr>outputDir := dir\<rparr>"

definition DeployedFiles :: "ClickOnce \<Rightarrow> (string \<times> DeployedFile) list" where
  "DeployedFiles co = deployedFiles co"

text \<open>
  \<open>Init\<close> requests the application manifest and decodes it. The assignment
  \<open>co.assembly, err = decodeManifest(appContent)\<close> stores nil when decoding fails.
\<close>

definition Init :: "env \<Rightarrow> ClickOnce \<Rightarrow> string \<Rightarrow> error option \<times> ClickOnce" where
  "Init E co appUrl =
     (if appUrl = [] then (Some MissingApplicationUrl, co)
      else
        (case download E appUrl (requests co) of
           (Inl err, rq) \<Rightarrow> (Some err, co\<lparr>requests := rq\<rparr>)
         | (Inr res, rq) \<Rightarrow>
             let co1 = co\<lparr>requests := rq\<rparr>
             in if StatusCode res = StatusNotFound
                then (Some (NoApplicationAvailable appUrl), co1)
                else
                  (case Body res of
                     Inl msg \<Rightarrow> (Some (LibraryError msg), co1)
                   | Inr appContent \<Rightarrow>
                       if length appContent = 0 then (Some ApplicationFileEmpty, co1)
                       else
                         (case decodeManifest E appContent of
                            Inl err \<Rightarrow> (Some err, co1\<lparr>assembly := None\<rparr>)
                          | Inr asm \<Rightarrow>
                              (None, co1\<lparr>assembly := Some asm,
                                         baseUrl := Some (RequestURL res)\<rparr>)))))"

text \<open>The zero value of the struct, \<open>&clickonce.ClickOnce{}\<close>.\<close>

definition newClickOnce :: ClickOnce where
  "newClickOnce =
     \<lparr>deployedFiles = [], subset_co = None, baseUrl = None, assembly = None,
      outputDir = [], noSuffix = False, offline = False, notFound = 0,
      requests = [], written = [], rebasedTo = []\<rparr>"

section \<open>A sample deployment\<close>

text \<open>
  A small server with five applications on a 64-bit platform, used to run the functions
  on concrete input. The library functions of the sample are simple versions that agree
  with the Go library on the values that occur: URLs of the form
  \<open>scheme://host/path#fragment\<close>, the reference \<open>%zz\<close>, which \<open>url.Parse\<close> refuses for
  its escape, relative references made of plain path elements, clean path names, strings
  of ASCII bytes to put into lower case, and tables with the true SHA-1 and SHA-256
  digests and base64 texts of the sample bodies.
\<close>

definition sample_url_Parse :: "string \<Rightarrow> string + URL" where
  "sample_url_Parse s =
     (if s = ''%zz'' then Inl ''invalid URL escape''
      else
        let rest = drop 3 (dropWhile (\<lambda>c. c \<noteq> CHR '':'') s)
        in Inr \<lparr>Scheme = takeWhile (\<lambda>c. c \<noteq> CHR '':'') s,
                Host = takeWhile (\<lambda>c. c \<noteq> CHR ''/'') rest,
                Path = takeWhile (\<lambda>c. c \<noteq> CHR ''#'') (dropWhile (\<lambda>c. c \<noteq> CHR ''/'') rest),
                RawQuery = [],
                Fragment = drop 1 (dropWhile (\<lambda>c. c \<noteq> CHR ''#'') s)\<rparr>)"

definition sample_URL_Parse :: "URL \<Rightarrow> string \<Rightarrow> string + URL" where
  "sample_URL_Parse b ref =
     Inr \<lparr>Scheme = Scheme b, Host = Host b,
          Path = rev (dropWhile (\<lambda>c. c \<noteq> CHR ''/'') (rev (Path b))) @ ref,
          RawQuery = [], Fragment = []\<rparr>"

definition sample_URL_Parse_nil :: "string \<Rightarrow> (string + URL) option" where
  "sample_URL_Parse_nil ref =
     (if CHR '':'' \<in> set ref then Some (sample_url_Parse ref) else None)"

definition sample_ToLower :: "string \<Rightarrow> string" where
  "sample_ToLower s =
     map (\<lambda>c. let n = (of_char c :: int) in if 65 \<le> n \<and> n \<le> 90 then char_of (n + 32) else c) s"

definition sample_URL_String :: "URL \<Rightarrow> string" where
  "sample_URL_String u = Scheme u @ ''://'' @ Host u @ Path u"

definition sample_path_Join :: "string \<Rightarrow> string \<Rightarrow> string" where
  "sample_path_Join dir p = dir @ ''/'' @ p"

definition sample_path_Dir :: "string \<Rightarrow> string" where
  "sample_path_Dir p = rev (drop 1 (dropWhile (\<lambda>c. c \<noteq> CHR ''/'') (rev p)))"

definition body_app_manifest :: bytes where
  "body_app_manifest = ''<assembly>app.exe.manifest</assembly>''"

definition body_bad_manifest :: bytes where
  "body_bad_manifest = ''<assembly>bad.manifest</assembly>''"

definition body_one_manifest :: bytes where
  "body_one_manifest = ''<assembly>one.manifest</assembly>''"

definition body_two_manifest :: bytes where
  "body_two_manifest = ''<assembly>two.manifest</assembly>''"

definition body_sib_manifest :: bytes where
  "body_sib_manifest = ''<assembly>sib.manifest</assembly>''"

definition body_a_exe :: bytes where
  "body_a_exe = ''A''"

definition body_b_dll :: bytes where
  "body_b_dll = ''BB''"

definition body_d_txt :: bytes where
  "body_d_txt = ''D''"

definition sha1_table :: "(bytes \<times> bytes) list" where
  "sha1_table =
     [(body_app_manifest,
       [CHR 0x53, CHR 0x6D, CHR 0x9D, CHR 0x58, CHR 0xCC, CHR 0xC0, CHR 0x5D, CHR 0xB0,
        CHR 0xAF, CHR 0xD8, CHR 0xD1, CHR 0x83, CHR 0x12, CHR 0x39, CHR 0x72, CHR 0x41,
        CHR 0x63, CHR 0x15, CHR 0xC1, CHR 0x35]),
      (body_bad_manifest,
       [CHR 0xFB, CHR 0x74, CHR 0xA1, CHR 0x16, CHR 0x96, CHR 0x96, CHR 0xCC, CHR 0x94,
        CHR 0x0D, CHR 0x3A, CHR 0xCC, CHR 0x63, CHR 0xA1, CHR 0x66, CHR 0x6D, CHR 0xBB,
        CHR 0xFA, CHR 0x66, CHR 0xFD, CHR 0xDD]),
      (body_one_manifest,
       [CHR 0xAF, CHR 0x91, CHR 0x23, CHR 0x6C, CHR 0x56, CHR 0x15, CHR 0xE0, CHR 0xC0,
        CHR 0xA7, CHR 0x47, CHR 0xFF, CHR 0x53, CHR 0x54, CHR 0x29, CHR 0x83, CHR 0x5D,
        CHR 0x48, CHR 0xE7, CHR 0x2C, CHR 0x4F]),
      (body_two_manifest,
       [CHR 0xAA, CHR 0xDD, CHR 0x38, CHR 0x2E, CHR 0x95, CHR 0x26, CHR 0xDA, CHR 0xE2,
        CHR 0xCA, CHR 0xE1, CHR 0xEB, CHR 0x9A, CHR 0x6F, CHR 0x66, CHR 0xC3, CHR 0x3A,
        CHR 0xC9, CHR 0xE4, CHR 0x12, CHR 0x9C]),
      (body_sib_manifest,
       [CHR 0xC7, CHR 0xF7, CHR 0x21, CHR 0x8A, CHR 0x67, CHR 0x7D, CHR 0xD1, CHR 0x83,
        CHR 0x55, CHR 0x44, CHR 0x01, CHR 0xD6, CHR 0x5F, CHR 0xEA, CHR 0x13, CHR 0x18,
        CHR 0xA1, CHR 0x86, CHR 0xDA, CHR 0xE5]),
      (body_a_exe,
       [CHR 0x6D, CHR 0xCD, CHR 0x4C, CHR 0xE2, CHR 0x3D, CHR 0x88, CHR 0xE2, CHR 0xEE,
        CHR 0x95, CHR 0x68, CHR 0xBA, CHR 0x54, CHR 0x6C, CHR 0x00, CHR 0x7C, CHR 0x63,
        CHR 0xD9, CHR 0x13, CHR 0x1C, CHR 0x1B]),
      (body_b_dll,
       [CHR 0x71, CHR 0xC9, CHR 0xDB, CHR 0x71, CHR 0x75, CHR 0x78, CHR 0xB9, CHR 0xEE,
        CHR 0x49, CHR 0xA5, CHR 0x9E, CHR 0x69, CHR 0x37, CHR 0x5C, CHR 0x16, CHR 0xC0,
        CHR 0x62, CHR 0x7D, CHR 0xFF, CHR 0xEF]),
      (body_d_txt,
       [CHR 0x50, CHR 0xC9, CHR 0xE8, CHR 0xD5, CHR 0xFC, CHR 0x98, CHR 0x72, CHR 0x7B,
        CHR 0x4B, CHR 0xBC, CHR 0x93, CHR 0xCF, CHR 0x5D, CHR 0x64, CHR 0xA6, CHR 0x8D,
        CHR 0xB6, CHR 0x47, CHR 0xF0, CHR 0x4F])]"

definition sha256_table :: "(bytes \<times> bytes) list" where
  "sha256_table =
     [(body_b_dll,
       [CHR 0xFC, CHR 0x68, CHR 0x6C, CHR 0x31, CHR 0x44, CHR 0x91, CHR 0xE1, CHR 0xF6,
        CHR 0x8B, CHR 0xF1, CHR 0x89, CHR 0x9F, CHR 0xC5, CHR 0x4B, CHR 0x23, CHR 0x27,
        CHR 0x35, CHR 0x3C, CHR 0x44, CHR 0xDD, CHR 0x1A, CHR 0xB4, CHR 0xED, CHR 0x56,
        CHR 0x53, CHR 0x8E, CHR 0xF6, CHR 0x23, CHR 0xED, CHR 0xD1, CHR 0xE8, CHR 0x66])]"

definition base64_table :: "(bytes \<times> string) list" where
  "base64_table =
     [([CHR 0x53, CHR 0x6D, CHR 0x9D, CHR 0x58, CHR 0xCC, CHR 0xC0, CHR 0x5D, CHR 0xB0,
        CHR 0xAF, CHR 0xD8, CHR 0xD1, CHR 0x83, CHR 0x12, CHR 0x39, CHR 0x72, CHR 0x41,
        CHR 0x63, CHR 0x15, CHR 0xC1, CHR 0x35],
       ''U22dWMzAXbCv2NGDEjlyQWMVwTU=''),
      ([CHR 0xFB, CHR 0x74, CHR 0xA1, CHR 0x16, CHR 0x96, CHR 0x96, CHR 0xCC, CHR 0x94,
        CHR 0x0D, CHR 0x3A, CHR 0xCC, CHR 0x63, CHR 0xA1, CHR 0x66, CHR 0x6D, CHR 0xBB,
        CHR 0xFA, CHR 0x66, CHR 0xFD, CHR 0xDD],
       ''+3ShFpaWzJQNOsxjoWZtu/pm/d0=''),
      ([CHR 0xAF, CHR 0x91, CHR 0x23, CHR 0x6C, CHR 0x56, CHR 0x15, CHR 0xE0, CHR 0xC0,
        CHR 0xA7, CHR 0x47, CHR 0xFF, CHR 0x53, CHR 0x54, CHR 0x29, CHR 0x83, CHR 0x5D,
        CHR 0x48, CHR 0xE7, CHR 0x2C, CHR 0x4F],
       ''r5EjbFYV4MCnR/9TVCmDXUjnLE8=''),
      ([CHR 0xAA, CHR 0xDD, CHR 0x38, CHR 0x2E, CHR 0x95, CHR 0x26, CHR 0xDA, CHR 0xE2,
        CHR 0xCA, CHR 0xE1, CHR 0xEB, CHR 0x9A, CHR 0x6F, CHR 0x66, CHR 0xC3, CHR 0x3A,
        CHR 0xC9, CHR 0xE4, CHR 0x12, CHR 0x9C],
       ''qt04LpUm2uLK4euab2bDOsnkEpw=''),
      ([CHR 0xC7, CHR 0xF7, CHR 0x21, CHR 0x8A, CHR 0x67, CHR 0x7D, CHR 0xD1, CHR 0x83,
        CHR 0x55, CHR 0x44, CHR 0x01, CHR 0xD6, CHR 0x5F, CHR 0xEA, CHR 0x13, CHR 0x18,
        CHR 0xA1, CHR 0x86, CHR 0xDA, CHR 0xE5],
       ''x/chimd90YNVRAHWX+oTGKGG2uU=''),
      ([CHR 0x6D, CHR 0xCD, CHR 0x4C, CHR 0xE2, CHR 0x3D, CHR 0x88, CHR 0xE2, CHR 0xEE,
        CHR 0x95, CHR 0x68, CHR 0xBA, CHR 0x54, CHR 0x6C, CHR 0x00, CHR 0x7C, CHR 0x63,
        CHR 0xD9, CHR 0x13, CHR 0x1C, CHR 0x1B],
       ''bc1M4j2I4u6VaLpUbAB8Y9kTHBs=''),
      ([CHR 0x71, CHR 0xC9, CHR 0xDB, CHR 0x71, CHR 0x75, CHR 0x78, CHR 0xB9, CHR 0xEE,
        CHR 0x49, CHR 0xA5, CHR 0x9E, CHR 0x69, CHR 0x37, CHR 0x5C, CHR 0x16, CHR 0xC0,
        CHR 0x62, CHR 0x7D, CHR 0xFF, CHR 0xEF],
       ''ccnbcXV4ue5JpZ5pN1wWwGJ9/+8=''),
      ([CHR 0xFC, CHR 0x68, CHR 0x6C, CHR 0x31, CHR 0x44, CHR 0x91, CHR 0xE1, CHR 0xF6,
        CHR 0x8B, CHR 0xF1, CHR 0x89, CHR 0x9F, CHR 0xC5, CHR 0x4B, CHR 0x23, CHR 0x27,
        CHR 0x35, CHR 0x3C, CHR 0x44, CHR 0xDD, CHR 0x1A, CHR 0xB4, CHR 0xED, CHR 0x56,
        CHR 0x53, CHR 0x8E, CHR 0xF6, CHR 0x23, CHR 0xED, CHR 0xD1, CHR 0xE8, CHR 0x66],
       ''/GhsMUSR4faL8YmfxUsjJzU8RN0atO1WU472I+3R6GY=''),
      ([CHR 0x50, CHR 0xC9, CHR 0xE8, CHR 0xD5, CHR 0xFC, CHR 0x98, CHR 0x72, CHR 0x7B,
        CHR 0x4B, CHR 0xBC, CHR 0x93, CHR 0xCF, CHR 0x5D, CHR 0x64, CHR 0xA6, CHR 0x8D,
        CHR 0xB6, CHR 0x47, CHR 0xF0, CHR 0x4F],
       ''UMno1fyYcntLvJPPXWSmjbZH8E8='')]"

definition xmldsig_sha1 :: string where
  "xmldsig_sha1 = ''http://www.w3.org/2000/09/xmldsig#sha1''"

definition xmldsig_sha256 :: string where
  "xmldsig_sha256 = ''http://www.w3.org/2000/09/xmldsig#sha256''"

definition entry :: "string \<Rightarrow> string \<Rightarrow> string \<Rightarrow> coBase" where
  "entry sz alg dg = \<lparr>Size = sz, Hash = \<lparr>DigestMethod = \<lparr>Algorithm = alg\<rparr>, DigestValue = dg\<rparr>\<rparr>"

definition install :: "string \<Rightarrow> coBase \<Rightarrow> coDependentAssembly" where
  "install codebase b =
     \<lparr>dbase = b, Codebase = codebase, DependencyType = ''install'', AllowDelayedBinding = []\<rparr>"

text \<open>
  The application \<open>app\<close>: its deployment manifest names the application manifest in
  the directory \<open>v1\<close> (with a backslash), which names two files.
\<close>

definition app_application :: coAssembly where
  "app_application =
     \<lparr>File = [],
      DependentAssembly =
        [install (''v1'' @ [CHR 0x5C] @ ''app.exe.manifest'')
           (entry ''37'' xmldsig_sha1 ''U22dWMzAXbCv2NGDEjlyQWMVwTU='')]\<rparr>"

definition app_manifest :: coAssembly where
  "app_manifest =
     \<lparr>File = [\<lparr>base = entry ''1'' xmldsig_sha1 ''bc1M4j2I4u6VaLpUbAB8Y9kTHBs='', Name = ''a.exe''\<rparr>,
              \<lparr>base = entry ''2'' xmldsig_sha256 ''/GhsMUSR4faL8YmfxUsjJzU8RN0atO1WU472I+3R6GY='', Name = ''b.dll''\<rparr>],
      DependentAssembly = []\<rparr>"

text \<open>
  The application \<open>bad\<close>: the nested manifest has a file whose size is not a number;
  the deployment manifest has one more file after the nested manifest.
\<close>

definition bad_application :: coAssembly where
  "bad_application =
     \<lparr>File = [\<lparr>base = entry ''1'' xmldsig_sha1 ''UMno1fyYcntLvJPPXWSmjbZH8E8='', Name = ''d.txt''\<rparr>],
      DependentAssembly =
        [install ''bad.manifest'' (entry ''33'' xmldsig_sha1 ''+3ShFpaWzJQNOsxjoWZtu/pm/d0='')]\<rparr>"

definition bad_manifest :: coAssembly where
  "bad_manifest =
     \<lparr>File = [\<lparr>base = entry ''abc'' xmldsig_sha1 ''MglsLg7/M9hE7m1nVAes4YKJNX0='', Name = ''c.bin''\<rparr>],
      DependentAssembly = []\<rparr>"

text \<open>The application \<open>plain\<close>: one file, deployed without the \<open>.deploy\<close> suffix.\<close>

definition plain_application :: coAssembly where
  "plain_application =
     \<lparr>File = [\<lparr>base = entry ''1'' xmldsig_sha1 ''bc1M4j2I4u6VaLpUbAB8Y9kTHBs='', Name = ''a.exe''\<rparr>],
      DependentAssembly = []\<rparr>"

text \<open>The application \<open>two\<close>: two nested manifests in two directories, both empty.\<close>

definition two_application :: coAssembly where
  "two_application =
     \<lparr>File = [],
      DependentAssembly =
        [install ''x/one.manifest'' (entry ''33'' xmldsig_sha1 ''r5EjbFYV4MCnR/9TVCmDXUjnLE8=''),
         install ''y/two.manifest'' (entry ''33'' xmldsig_sha1 ''qt04LpUm2uLK4euab2bDOsnkEpw='')]\<rparr>"

text \<open>
  The application \<open>sib\<close>: the nested manifest lies in the directory \<open>v1\<close> and names
  one file; the deployment manifest has one more file after the nested manifest, which
  the server keeps in \<open>v1\<close> too.
\<close>

definition sib_application :: coAssembly where
  "sib_application =
     \<lparr>File = [\<lparr>base = entry ''1'' xmldsig_sha1 ''UMno1fyYcntLvJPPXWSmjbZH8E8='', Name = ''d.txt''\<rparr>],
      DependentAssembly =
        [install (''v1'' @ [CHR 0x5C] @ ''sib.manifest'')
           (entry ''33'' xmldsig_sha1 ''x/chimd90YNVRAHWX+oTGKGG2uU='')]\<rparr>"

definition sib_manifest :: coAssembly where
  "sib_manifest =
     \<lparr>File = [\<lparr>base = entry ''1'' xmldsig_sha1 ''bc1M4j2I4u6VaLpUbAB8Y9kTHBs='', Name = ''a.exe''\<rparr>],
      DependentAssembly = []\<rparr>"

definition empty_manifest :: coAssembly where
  "empty_manifest = \<lparr>File = [], DependentAssembly = []\<rparr>"

definition body_app_application :: bytes where
  "body_app_application = ''<assembly>app.application</assembly>''"

definition body_bad_application :: bytes where
  "body_bad_application = ''<assembly>bad.application</assembly>''"

definition body_plain_application :: bytes where
  "body_plain_application = ''<assembly>plain.application</assembly>''"

definition body_two_application :: bytes where
  "body_two_application = ''<assembly>two.application</assembly>''"

definition body_sib_application :: bytes where
  "body_sib_application = ''<assembly>sib.application</assembly>''"

definition body_not_found :: bytes where
  "body_not_found = ''404 page not found''"

definition sampleServer :: "(string \<times> bytes) list" where
  "sampleServer =
     [(''http://h/app/app.application'', body_app_application),
      (''http://h/app/v1/app.exe.manifest'', body_app_manifest),
      (''http://h/app/v1/a.exe.deploy'', body_a_exe),
      (''http://h/app/v1/b.dll.deploy'', body_b_dll),
      (''http://h/bad/bad.application'', body_bad_application),
      (''http://h/bad/bad.manifest'', body_bad_manifest),
      (''http://h/bad/d.txt.deploy'', body_d_txt),
      (''http://h/plain/plain.application'', body_plain_application),
      (''http://h/plain/a.exe'', body_a_exe),
      (''http://h/two/two.application'', body_two_application),
      (''http://h/two/x/one.manifest'', body_one_manifest),
      (''http://h/two/x/y/two.manifest'', body_two_manifest),
      (''http://h/sib/sib.application'', body_sib_application),
      (''http://h/sib/v1/sib.manifest'', body_sib_manifest),
      (''http://h/sib/v1/a.exe.deploy'', body_a_exe),
      (''http://h/sib/v1/d.txt.deploy'', body_d_txt)]"

definition sampleManifests :: "(bytes \<times> coAssembly) list" where
  "sampleManifests =
     [(body_app_application, app_application),
      (body_app_manifest, app_manifest),
      (body_bad_application, bad_application),
      (body_bad_manifest, bad_manifest),
      (body_plain_application, plain_application),
      (body_two_application, two_application),
      (body_one_manifest, empty_manifest),
      (body_two_manifest, empty_manifest),
      (body_sib_application, sib_application),
      (body_sib_manifest, sib_manifest)]"

definition the_URL :: "string \<Rightarrow> URL" where
  "the_URL s = (case sample_url_Parse s of Inr u \<Rightarrow> u
                | Inl err \<Rightarrow> \<lparr>Scheme = [], Host = [], Path = [], RawQuery = [], Fragment = []\<rparr>)"

definition sample_http_Get :: "string \<Rightarrow> string + response" where
  "sample_http_Get u =
     (case map_of sampleServer u of
        Some b \<Rightarrow> Inr \<lparr>StatusCode = 200, Body = Inr b, RequestURL = the_URL u\<rparr>
      | None \<Rightarrow> Inr \<lparr>StatusCode = 404, Body = Inr body_not_found, RequestURL = the_URL u\<rparr>)"

definition sample_xml_Decode :: "bytes \<Rightarrow> string + coAssembly" where
  "sample_xml_Decode data =
     (case map_of sampleManifests data of
        Some asm \<Rightarrow> Inr asm
      | None \<Rightarrow> Inl ''EOF'')"

definition tableLookup :: "(bytes \<times> bytes) list \<Rightarrow> bytes \<Rightarrow> bytes" where
  "tableLookup t k = (case map_of t k of Some v \<Rightarrow> v | None \<Rightarrow> [])"

definition sampleEnv :: env where
  "sampleEnv =
     \<lparr>IntSize = Bits64,
      http_NewRequest = (\<lambda>u. None),
      http_Get = sample_http_Get,
      xml_Decode = sample_xml_Decode,
      url_Parse = sample_url_Parse,
      URL_Parse = sample_URL_Parse,
      URL_Parse_nil = sample_URL_Parse_nil,
      URL_String = sample_URL_String,
      strings_ToLower = sample_ToLower,
      sha1_Sum = tableLookup sha1_table,
      sha256_Sum256 = tableLookup sha256_table,
      base64_EncodeToString = tableLookup base64_table,
      path_Join = sample_path_Join,
      path_Dir = sample_path_Dir,
      os_MkdirAll = (\<lambda>p. None),
      os_WriteFile = (\<lambda>p data. None)\<rparr>"

text \<open>The sessions after \<open>Init\<close> with the URL of the deployment manifest.\<close>

definition app_session :: ClickOnce where
  "app_session = snd (Init sampleEnv newClickOnce ''http://h/app/app.application'')"

definition bad_session :: ClickOnce where
  "bad_session = snd (Init sampleEnv newClickOnce ''http://h/bad/bad.application'')"

definition plain_session :: ClickOnce where
  "plain_session = snd (Init sampleEnv newClickOnce ''http://h/plain/plain.application'')"



section \<open>Notions used in the statements\<close>

text \<open>The file name of an entry: the last element of its path, backslashes read as slashes.\<close>

abbreviation nameOf :: "string \<Rightarrow> string" where
  "nameOf p \<equiv> path_Base (backslashToSlash p)"

text \<open>
  An entry is traversed in a session when none of the three early returns of
  \<open>retrieveDeployedFile\<close> applies: its path is not empty, the subset filter does not
  skip it, and its path is not yet a key of the result mapping.
\<close>

definition traversed :: "ClickOnce \<Rightarrow> string \<Rightarrow> bool" where
  "traversed co p \<longleftrightarrow>
     p \<noteq> [] \<and>
     \<not> (notNil (subset_co co) \<and> \<not> isManifest (nameOf p) \<and> \<not> hasKey (subset_co co) (nameOf p)) \<and>
     map_of (deployedFiles co) p = None"

text \<open>The session after line 323: the base URL moves for a manifest that is a dependency.\<close>

definition rebased :: "ClickOnce \<Rightarrow> string \<Rightarrow> coType \<Rightarrow> URL \<Rightarrow> ClickOnce" where
  "rebased co p t u =
     (if t = AssemblyDependency \<and> isManifest (nameOf p)
      then co\<lparr>baseUrl := Some u, rebasedTo := rebasedTo co @ [u]\<rparr> else co)"

text \<open>The session a call has returned, or the given one when the call has not returned.\<close>

definition sessionAfter :: "('a \<times> ClickOnce) option \<Rightarrow> ClickOnce \<Rightarrow> ClickOnce" where
  "sessionAfter r co = (case r of None \<Rightarrow> co | Some (err, co') \<Rightarrow> co')"

text \<open>
  The value of a string of decimal digits, and the strings that denote an integer: an
  optional sign followed by one or more decimal digits.
\<close>

fun decimal :: "int \<Rightarrow> string \<Rightarrow> int" where
  "decimal acc [] = acc"
| "decimal acc (c # cs) = decimal (acc * 10 + (of_char c - 48)) cs"

definition signedDecimal :: "string \<Rightarrow> int \<Rightarrow> bool" where
  "signedDecimal s n \<longleftrightarrow>
     (\<exists>sg ds. s = sg @ ds \<and> (sg = [] \<or> sg = ''+'' \<or> sg = ''-'') \<and> ds \<noteq> [] \<and>
        list_all isDigit ds \<and> n = (if sg = ''-'' then - decimal 0 ds else decimal 0 ds))"

text \<open>The integers that an \<open>int\<close> of the given width holds.\<close>

definition inRange :: "wordSize \<Rightarrow> int \<Rightarrow> bool" where
  "inRange w n \<longleftrightarrow> - (2 ^ (bitsOf w - 1)) \<le> n \<and> n < 2 ^ (bitsOf w - 1)"

text \<open>
  The error of \<open>strconv.Atoi\<close> for a string that denotes no integer in the range of
  \<open>int\<close>. It is the range error when the digits that follow the sign, up to the first
  byte that is no digit, have a value above \<open>2^w - 1\<close> already, and when the string
  denotes an integer, which is then out of range; it is the syntax error otherwise.
\<close>

definition unsignedPart :: "string \<Rightarrow> string" where
  "unsignedPart s = (if take 1 s = ''+'' \<or> take 1 s = ''-'' then drop 1 s else s)"

definition atoiError :: "wordSize \<Rightarrow> string \<Rightarrow> error" where
  "atoiError w s =
     (let ds = takeWhile isDigit (unsignedPart s)
      in if 2 ^ bitsOf w \<le> decimal 0 ds \<or> (ds \<noteq> [] \<and> ds = unsignedPart s)
         then ErrRange s else ErrSyntax s)"

definition checksumText :: "env \<Rightarrow> remoteFile \<Rightarrow> bytes \<Rightarrow> string" where
  "checksumText E file body =
     base64_EncodeToString E
       (if algorithm file = ''sha1'' then sha1_Sum E body else sha256_Sum256 E body)"

definition a_exe_file :: "int \<Rightarrow> string \<Rightarrow> remoteFile" where
  "a_exe_file sz dg =
     \<lparr>url = the_URL ''http://h/app/v1/a.exe'', size_r = sz, digest = dg, algorithm = ''sha1''\<rparr>"

definition app_v1_session :: ClickOnce where
  "app_v1_session = app_session\<lparr>baseUrl := Some (the_URL ''http://h/app/v1/app.exe.manifest'')\<rparr>"

definition a_exe_response :: response where
  "a_exe_response =
     \<lparr>StatusCode = 200, Body = Inr ''A'', RequestURL = the_URL ''http://h/app/v1/a.exe.deploy''\<rparr>"

definition frame :: "ClickOnce \<Rightarrow> ClickOnce \<Rightarrow> bool" where
  "frame a b \<longleftrightarrow>
     assembly b = assembly a \<and> offline b = offline a \<and> outputDir b = outputDir a \<and>
     written b = written a \<and> notFound b = notFound a \<and>
     notNil (subset_co b) = notNil (subset_co a) \<and>
     (baseUrl a \<noteq> None \<longrightarrow> baseUrl b \<noteq> None)"

definition filterKept :: "ClickOnce \<Rightarrow> ClickOnce \<Rightarrow> bool" where
  "filterKept a b \<longleftrightarrow>
     notNil (subset_co b) = notNil (subset_co a) \<and>
     (\<forall>k. \<not> isManifest k \<longrightarrow> hasKey (subset_co b) k = hasKey (subset_co a) k) \<and>
     (\<forall>p. map_of (deployedFiles b) p \<noteq> None \<longrightarrow> map_of (deployedFiles a) p = None \<longrightarrow>
          notNil (subset_co a) \<longrightarrow> isManifest (nameOf p) \<or> hasKey (subset_co a) (nameOf p))"

definition keeps :: "ClickOnce \<Rightarrow> string \<Rightarrow> bool" where
  "keeps co p \<longleftrightarrow> \<not> (notNil (subset_co co) \<and> \<not> hasKey (subset_co co) (nameOf p))"

definition savedFile :: "env \<Rightarrow> ClickOnce \<Rightarrow> string \<times> DeployedFile \<Rightarrow> string \<times> bytes" where
  "savedFile E co kv =
     (path_Join E (outputDir co) (backslashToSlash (fst kv)), Content (snd kv))"

definition savedList :: "env \<Rightarrow> ClickOnce \<Rightarrow> (string \<times> DeployedFile) list \<Rightarrow> (string \<times> bytes) list" where
  "savedList E co kvs = map (savedFile E co) (filter (\<lambda>kv. keeps co (fst kv)) kvs)"

definition unflagged :: "ClickOnce \<Rightarrow> string list \<Rightarrow> string list" where
  "unflagged co names = filter (\<lambda>s. \<not> flagOf (subset_co co) s) names"

definition marks :: "ClickOnce \<Rightarrow> ClickOnce \<Rightarrow> bool" where
  "marks a b \<longleftrightarrow>
     (\<forall>p v. map_of (deployedFiles a) p = Some v \<longrightarrow> map_of (deployedFiles b) p = Some v) \<and>
     (\<forall>k. flagOf (subset_co b) k \<longrightarrow>
        flagOf (subset_co a) k \<or> (\<exists>p. map_of (deployedFiles b) p \<noteq> None \<and> nameOf p = k))"

definition withSubset :: "ClickOnce \<Rightarrow> string list \<Rightarrow> ClickOnce" where
  "withSubset co names =
     (if names = [] then co
      else co\<lparr>subset_co := Some (\<lambda>k. if k \<in> set names then Some False else None)\<rparr>)"

definition out_session :: ClickOnce where
  "out_session = SetOutputDir app_session ''out''"



definition bad_out :: ClickOnce where
  "bad_out = SetOutputDir bad_session ''out''"

definition bad_stale :: ClickOnce where
  "bad_stale = sessionAfter (Get (Suc 0) sampleEnv bad_out [''zz'']) bad_out"














definition plain_a_exe :: remoteFile where
  "plain_a_exe =
     \<lparr>url = the_URL ''http://h/plain/a.exe'', size_r = 1,
      digest = ''bc1M4j2I4u6VaLpUbAB8Y9kTHBs='', algorithm = ''sha1''\<rparr>"

definition not_found_response :: "string \<Rightarrow> response" where
  "not_found_response u = \<lparr>StatusCode = 404, Body = Inr body_not_found, RequestURL = the_URL u\<rparr>"

definition app_offline :: ClickOnce where
  "app_offline =
     SetOutputDir (sessionAfter (GetAll (Suc 0) sampleEnv app_session) app_session) ''out''"

definition bad_in_manifest :: ClickOnce where
  "bad_in_manifest =
     sessionAfter
       (retrieveStep sampleEnv bad_session ''bad.manifest''
          (entry ''33'' xmldsig_sha1 ''+3ShFpaWzJQNOsxjoWZtu/pm/d0='') AssemblyDependency)
       bad_session"

section \<open>The step of one entry\<close>

declare retrieveDeployedFile.simps [simp del] subApplication.simps [simp del]
  retrieveAllDeployedFiles.simps [simp del]

lemma retrieveStep_skipped:
  "\<not> traversed co p \<Longrightarrow> retrieveStep E co p cb t = Some (Returned None, co)"
  by (auto simp: retrieveStep_def traversed_def Let_def)

lemma baseUrl_Parse_Some [simp]: "baseUrl_Parse E (Some b) ref = Some (URL_Parse E b ref)"
  by (simp add: baseUrl_Parse_def)

lemma retrieveStep_traversed:
  assumes "traversed co p"
  shows "retrieveStep E co p cb t =
     (case baseUrl_Parse E (baseUrl co) (backslashToSlash p) of
        None \<Rightarrow> None
      | Some (Inl msg) \<Rightarrow> Some (Returned (Some (LibraryError msg)), co)
      | Some (Inr u) \<Rightarrow>
          (case remoteFileInfo E u cb of
             Inl err \<Rightarrow> Some (Returned (Some err), rebased co p t u)
           | Inr rf \<Rightarrow>
               (case downloadAndCheck E rf (\<not> noSuffix co) (requests co) of
                  ((content, sfx, Some err), rq) \<Rightarrow>
                    Some (Returned (Some err), (rebased co p t u)\<lparr>requests := rq\<rparr>)
                | ((content, sfx, None), rq) \<Rightarrow>
                    Some (Downloaded (isManifest (nameOf p)) content,
                          (rebased co p t u)
                            \<lparr>requests := rq, noSuffix := \<not> sfx,
                             deployedFiles :=
                               assign (deployedFiles co) p \<lparr>Type = t, Content = content\<rparr>,
                             subset_co :=
                               map_option (\<lambda>m. m(nameOf p \<mapsto> True)) (subset_co co)\<rparr>))))"
  using assms
  by (auto simp: retrieveStep_def traversed_def rebased_def Let_def
           split: option.splits sum.splits prod.splits)

lemma downloadAndCheck_requests:
  "downloadAndCheck E rf sfx rq = (res, rq') \<Longrightarrow> \<exists>new. rq' = rq @ new"
  by (auto simp: downloadAndCheck_def fetchResponse_def download_def Let_def
           split: if_splits sum.splits prod.splits option.splits)

lemma downloadAndCheck_suffix:
  "downloadAndCheck E rf sfx rq = ((body, sfx', err), rq') \<Longrightarrow> sfx' \<Longrightarrow> sfx"
  by (auto simp: downloadAndCheck_def fetchResponse_def download_def checkBody_def Let_def
           split: if_splits sum.splits prod.splits option.splits)

text \<open>What a step can do to the session, as one case distinction.\<close>

lemma retrieveStep_cases:
  assumes "retrieveStep E co p cb t = Some (out, co')"
  obtains
    (skipped) "out = Returned None" "co' = co"
  | (failed) err u new where "out = Returned (Some err)" "traversed co p"
      "co' = co\<lparr>requests := requests co @ new\<rparr> \<or>
       co' = (rebased co p t u)\<lparr>requests := requests co @ new\<rparr>"
  | (downloaded) content u new sfx where "out = Downloaded (isManifest (nameOf p)) content"
      "traversed co p" "sfx \<longrightarrow> \<not> noSuffix co"
      "co' = (rebased co p t u)
               \<lparr>requests := requests co @ new, noSuffix := \<not> sfx,
                deployedFiles := assign (deployedFiles co) p \<lparr>Type = t, Content = content\<rparr>,
                subset_co := map_option (\<lambda>m. m(nameOf p \<mapsto> True)) (subset_co co)\<rparr>"
proof (cases "traversed co p")
  case False
  with assms skipped show ?thesis by (simp add: retrieveStep_skipped)
next
  case True
  from assms obtain parsed where b: "baseUrl_Parse E (baseUrl co) (backslashToSlash p) = Some parsed"
    by (cases "baseUrl_Parse E (baseUrl co) (backslashToSlash p)")
       (auto simp: retrieveStep_traversed [OF True])
  show ?thesis
  proof (cases parsed)
    case (Inl msg)
    with assms b True have "out = Returned (Some (LibraryError msg))" "co' = co"
      by (auto simp: retrieveStep_traversed)
    with True show ?thesis
      using failed [where err = "LibraryError msg" and new = "[]" and u = undefined] by simp
  next
    case (Inr u)
    note u = this
    show ?thesis
    proof (cases "remoteFileInfo E u cb")
      case (Inl err)
      with assms b u True have "out = Returned (Some err)" "co' = rebased co p t u"
        by (auto simp: retrieveStep_traversed)
      with True show ?thesis
        using failed [where err = err and new = "[]" and u = u] by (simp add: rebased_def)
    next
      case (Inr rf)
      obtain content sfx err rq where
        d: "downloadAndCheck E rf (\<not> noSuffix co) (requests co) = ((content, sfx, err), rq)"
        by (metis prod_cases3 surj_pair)
      from downloadAndCheck_requests [OF d] obtain new where new: "rq = requests co @ new" ..
      from downloadAndCheck_suffix [OF d] have sfx: "sfx \<longrightarrow> \<not> noSuffix co" by blast
      show ?thesis
      proof (cases err)
        case None
        with assms b u Inr d True new have "out = Downloaded (isManifest (nameOf p)) content"
          "co' = (rebased co p t u)
               \<lparr>requests := requests co @ new, noSuffix := \<not> sfx,
                deployedFiles := assign (deployedFiles co) p \<lparr>Type = t, Content = content\<rparr>,
                subset_co := map_option (\<lambda>m. m(nameOf p \<mapsto> True)) (subset_co co)\<rparr>"
          by (auto simp: retrieveStep_traversed)
        with True sfx show ?thesis
          using downloaded [where content = content and new = new and u = u and sfx = sfx] by simp
      next
        case (Some e)
        with assms b u Inr d True new have "out = Returned (Some e)"
          "co' = (rebased co p t u)\<lparr>requests := requests co @ new\<rparr>"
          by (auto simp: retrieveStep_traversed)
        with True show ?thesis using failed [where err = e and new = new and u = u] by simp
      qed
    qed
  qed
qed

section \<open>Relations kept by the traversal\<close>

text \<open>
  A relation between the session before and after that is reflexive, transitive and
  established by every step holds across each of the traversal functions.
\<close>

lemma traversal_rel:
  assumes refl: "\<And>E co. Q E co co"
      and trans: "\<And>E a b c. Q E a b \<Longrightarrow> Q E b c \<Longrightarrow> Q E a c"
      and step: "\<And>E co p cb t out co'. retrieveStep E co p cb t = Some (out, co') \<Longrightarrow> Q E co co'"
  shows "retrieveDeployedFile n E co p cb t = Some (e, co') \<Longrightarrow> Q E co co'"
    and "subApplication n E co content = Some (e, co') \<Longrightarrow> Q E co co'"
    and "retrieveAllDeployedFiles n E co asm = Some (e, co') \<Longrightarrow> Q E co co'"
    and "dependentLoop n E co ds = Some (r, co') \<Longrightarrow> Q E co co'"
    and "fileLoop n E co fs = Some (r, co') \<Longrightarrow> Q E co co'"
proof (induction n E co p cb t and n E co content and n E co asm and n E co ds and n E co fs
       arbitrary: e co' and e co' and e co' and r co' and r co'
       rule: retrieveDeployedFile_subApplication_retrieveAllDeployedFiles_dependentLoop_fileLoop.induct)
  case (1 n E co p cb t)
  from "1.prems" show ?case
    by (subst (asm) retrieveDeployedFile.simps)
       (auto split: option.splits prod.splits stepOutcome.splits if_splits
             intro: step trans "1.IH")
next
  case (2 n E co content)
  from "2.prems" show ?case
    by (subst (asm) subApplication.simps)
       (auto split: sum.splits nat.splits intro: refl "2.IH")
next
  case (3 n E co asm)
  from "3.prems" show ?case
    by (subst (asm) retrieveAllDeployedFiles.simps)
       (auto split: option.splits prod.splits if_splits intro: trans "3.IH")
next
  case (4 n E co)
  then show ?case by (simp add: refl)
next
  case (5 n E co d rest)
  from "5.prems" show ?case
    by (auto split: option.splits prod.splits if_splits intro: trans "5.IH")
next
  case (6 n E co)
  then show ?case by (simp add: refl)
next
  case (7 n E co f rest)
  from "7.prems" show ?case
    by (auto split: option.splits prod.splits if_splits intro: trans "7.IH")
qed

text \<open>The traversal returns no error: both loops end in \<open>return nil\<close>.\<close>

lemma retrieveAllDeployedFiles_returns_nil:
  "retrieveAllDeployedFiles n E co asm = Some (e, co') \<Longrightarrow> e = None"
  by (subst (asm) retrieveAllDeployedFiles.simps)
     (auto split: option.splits prod.splits if_splits)

section \<open>Parsing the size\<close>

lemma decimal_ge: "0 \<le> acc \<Longrightarrow> list_all isDigit ds \<Longrightarrow> acc \<le> decimal acc ds"
proof (induction ds arbitrary: acc)
  case Nil
  then show ?case by simp
next
  case (Cons c cs)
  from Cons.prems have d: "48 \<le> (of_char c :: int)" by (simp add: isDigit_def)
  with Cons.prems have "0 \<le> acc * 10 + (of_char c - 48)" by simp
  with Cons have "acc * 10 + (of_char c - 48) \<le> decimal (acc * 10 + (of_char c - 48)) cs"
    by simp
  with d Cons.prems show ?case by simp
qed

lemma isDigit_sign: "\<not> isDigit (CHR ''-'')" "\<not> isDigit (CHR ''+'')"
  by (simp_all add: isDigit_def)

lemma takeWhile_isDigit: "list_all isDigit (takeWhile isDigit cs)"
  by (induction cs) simp_all

text \<open>
  \<open>ParseUint\<close> in terms of the digits at the front of the string: the range error when
  their value is above the bound, the syntax error when a byte follows them.
\<close>

lemma ParseUint_loop_eq:
  "0 \<le> n \<Longrightarrow> n \<le> m \<Longrightarrow>
   ParseUint_loop m n cs =
     (if m < decimal n (takeWhile isDigit cs) then (m, Some RangeError)
      else if takeWhile isDigit cs = cs then (decimal n cs, None)
      else (0, Some SyntaxError))"
proof (induction cs arbitrary: n)
  case Nil
  then show ?case by simp
next
  case (Cons c cs)
  show ?case
  proof (cases "isDigit c")
    case False
    with Cons.prems show ?thesis by simp
  next
    case True
    let ?n1 = "n * 10 + (of_char c - 48)"
    from True have d: "0 \<le> (of_char c :: int) - 48" by (simp add: isDigit_def)
    with Cons.prems have n1: "0 \<le> ?n1" by simp
    show ?thesis
    proof (cases "m < ?n1")
      case over: True
      from decimal_ge [OF n1 takeWhile_isDigit, of cs] over
      have "m < decimal ?n1 (takeWhile isDigit cs)" by simp
      with True over show ?thesis by simp
    next
      case False
      then have "?n1 \<le> m" by simp
      from Cons.IH [OF n1 this] True False show ?thesis by simp
    qed
  qed
qed

lemma ParseUint_eq:
  "us \<noteq> [] \<Longrightarrow>
   ParseUint (bitsOf w) us =
     (if 2 ^ bitsOf w \<le> decimal 0 (takeWhile isDigit us) then (2 ^ bitsOf w - 1, Some RangeError)
      else if takeWhile isDigit us = us then (decimal 0 us, None)
      else (0, Some SyntaxError))"
  unfolding ParseUint_def
  by (subst ParseUint_loop_eq) (auto simp: bitsOf_def split: wordSize.splits)

lemma ParseInt_eq:
  "ParseInt b s =
     (case ParseUint b (unsignedPart s) of
        (un, Some SyntaxError) \<Rightarrow> Inl SyntaxError
      | (un, _) \<Rightarrow>
          if \<not> take 1 s = ''-'' \<and> 2 ^ (b - 1) \<le> un then Inl RangeError
          else if take 1 s = ''-'' \<and> 2 ^ (b - 1) < un then Inl RangeError
          else Inr (if take 1 s = ''-'' then - un else un))"
proof (cases s)
  case Nil
  then show ?thesis by (simp add: ParseInt_def ParseUint_def unsignedPart_def)
next
  case (Cons c cs)
  show ?thesis
    unfolding Cons
    by (simp add: ParseInt_def unsignedPart_def Let_def
             split: prod.splits option.splits numError.splits)
qed

lemma Atoi_eq:
  "Atoi w s =
     (let neg = (take 1 s = ''-'');
          us = unsignedPart s;
          ds = takeWhile isDigit us
      in if us = [] then Inl (ErrSyntax s)
         else if 2 ^ bitsOf w \<le> decimal 0 ds then Inl (ErrRange s)
         else if ds \<noteq> us then Inl (ErrSyntax s)
         else if (if neg then 2 ^ (bitsOf w - 1) < decimal 0 us
                  else 2 ^ (bitsOf w - 1) \<le> decimal 0 us) then Inl (ErrRange s)
         else Inr (if neg then - decimal 0 us else decimal 0 us))"
proof -
  let ?b = "bitsOf w"
  let ?us = "unsignedPart s"
  let ?ds = "takeWhile isDigit ?us"
  consider (empty) "?us = []"
    | (over) "?us \<noteq> []" "2 ^ ?b \<le> decimal 0 ?ds"
    | (nondigit) "?us \<noteq> []" "\<not> 2 ^ ?b \<le> decimal 0 ?ds" "?ds \<noteq> ?us"
    | (number) "?us \<noteq> []" "\<not> 2 ^ ?b \<le> decimal 0 ?ds" "?ds = ?us"
    by blast
  then show ?thesis
  proof cases
    case empty
    then have "ParseInt ?b s = Inl SyntaxError" by (simp add: ParseInt_eq ParseUint_def)
    with empty show ?thesis by (simp add: Atoi_def)
  next
    case over
    then have "ParseUint ?b ?us = (2 ^ ?b - 1, Some RangeError)" by (simp add: ParseUint_eq)
    then have "ParseInt ?b s = Inl RangeError"
      by (cases w; simp add: ParseInt_eq bitsOf_def)
    with over show ?thesis by (simp add: Atoi_def)
  next
    case nondigit
    then have "ParseUint ?b ?us = (0, Some SyntaxError)"
      by (simp add: ParseUint_eq del: takeWhile_eq_all_conv)
    then have "ParseInt ?b s = Inl SyntaxError" by (simp add: ParseInt_eq)
    with nondigit show ?thesis by (simp add: Atoi_def del: takeWhile_eq_all_conv)
  next
    case number
    then have "ParseUint ?b ?us = (decimal 0 ?us, None)"
      by (simp add: ParseUint_eq del: takeWhile_eq_all_conv)
    then have "ParseInt ?b s =
        (if \<not> take 1 s = ''-'' \<and> 2 ^ (?b - 1) \<le> decimal 0 ?us then Inl RangeError
         else if take 1 s = ''-'' \<and> 2 ^ (?b - 1) < decimal 0 ?us then Inl RangeError
         else Inr (if take 1 s = ''-'' then - decimal 0 ?us else decimal 0 ?us))"
      by (simp add: ParseInt_eq)
    with number show ?thesis by (simp add: Atoi_def Let_def del: takeWhile_eq_all_conv)
  qed
qed

lemma signedDecimal_iff:
  "signedDecimal s n \<longleftrightarrow>
     unsignedPart s \<noteq> [] \<and> list_all isDigit (unsignedPart s) \<and>
     n = (if take 1 s = ''-'' then - decimal 0 (unsignedPart s) else decimal 0 (unsignedPart s))"
proof
  assume "signedDecimal s n"
  then obtain sg ds where s: "s = sg @ ds" and sg: "sg = [] \<or> sg = ''+'' \<or> sg = ''-''"
    and ds: "ds \<noteq> []" "list_all isDigit ds"
    and n: "n = (if sg = ''-'' then - decimal 0 ds else decimal 0 ds)"
    by (auto simp: signedDecimal_def)
  from ds obtain c cs where c: "ds = c # cs" "isDigit c" by (cases ds) auto
  with isDigit_sign have "c \<noteq> CHR ''-''" "c \<noteq> CHR ''+''" by auto
  with sg s c ds n show "unsignedPart s \<noteq> [] \<and> list_all isDigit (unsignedPart s) \<and>
     n = (if take 1 s = ''-'' then - decimal 0 (unsignedPart s) else decimal 0 (unsignedPart s))"
    by (auto simp: unsignedPart_def)
next
  assume a: "unsignedPart s \<noteq> [] \<and> list_all isDigit (unsignedPart s) \<and>
     n = (if take 1 s = ''-'' then - decimal 0 (unsignedPart s) else decimal 0 (unsignedPart s))"
  show "signedDecimal s n"
  proof (cases "take 1 s = ''+'' \<or> take 1 s = ''-''")
    case True
    then have "s = take 1 s @ unsignedPart s" by (simp add: unsignedPart_def)
    with True a show ?thesis
      unfolding signedDecimal_def
      by (intro exI [of _ "take 1 s"] exI [of _ "unsignedPart s"]) auto
  next
    case False
    then have "s = [] @ unsignedPart s" by (simp add: unsignedPart_def)
    with False a show ?thesis
      unfolding signedDecimal_def
      by (intro exI [of _ "[]"] exI [of _ "unsignedPart s"]) auto
  qed
qed

lemma decimal_nonneg: "list_all isDigit ds \<Longrightarrow> 0 \<le> decimal 0 ds"
  using decimal_ge [of 0 ds] by simp

lemma Atoi_Inr_iff: "Atoi w s = Inr n \<longleftrightarrow> signedDecimal s n \<and> inRange w n"
proof -
  let ?b = "bitsOf w"
  let ?us = "unsignedPart s"
  show ?thesis
  proof (cases "?us \<noteq> [] \<and> list_all isDigit ?us")
    case False
    then have "Atoi w s \<noteq> Inr n" by (auto simp: Atoi_eq Let_def list_all_iff)
    with False show ?thesis by (auto simp: signedDecimal_iff)
  next
    case True
    then have ds: "takeWhile isDigit ?us = ?us" by (simp add: list_all_iff)
    from True have pos: "0 \<le> decimal 0 ?us" by (simp add: decimal_nonneg)
    show ?thesis
    proof (cases "take 1 s = ''-''")
      case neg: True
      with True ds have "Atoi w s = Inr n \<longleftrightarrow>
          \<not> 2 ^ ?b \<le> decimal 0 ?us \<and> \<not> 2 ^ (?b - 1) < decimal 0 ?us \<and> n = - decimal 0 ?us"
        by (auto simp: Atoi_eq Let_def simp del: takeWhile_eq_all_conv)
      also have "\<dots> \<longleftrightarrow> n = - decimal 0 ?us \<and> inRange w n"
        using pos by (cases w; auto simp: inRange_def bitsOf_def)
      finally show ?thesis using True neg by (auto simp: signedDecimal_iff)
    next
      case nonneg: False
      with True ds have "Atoi w s = Inr n \<longleftrightarrow>
          \<not> 2 ^ ?b \<le> decimal 0 ?us \<and> \<not> 2 ^ (?b - 1) \<le> decimal 0 ?us \<and> n = decimal 0 ?us"
        by (auto simp: Atoi_eq Let_def simp del: takeWhile_eq_all_conv)
      also have "\<dots> \<longleftrightarrow> n = decimal 0 ?us \<and> inRange w n"
        using pos by (cases w; auto simp: inRange_def bitsOf_def)
      finally show ?thesis using True nonneg by (auto simp: signedDecimal_iff)
    qed
  qed
qed

lemma Atoi_Inl:
  assumes "\<not> (\<exists>n. signedDecimal s n \<and> inRange w n)"
  shows "Atoi w s = Inl (atoiError w s)"
proof -
  from assms have no: "Atoi w s \<noteq> Inr n" for n by (simp add: Atoi_Inr_iff)
  let ?us = "unsignedPart s"
  let ?ds = "takeWhile isDigit ?us"
  consider (empty) "?us = []"
    | (over) "?us \<noteq> []" "2 ^ bitsOf w \<le> decimal 0 ?ds"
    | (nondigit) "?us \<noteq> []" "\<not> 2 ^ bitsOf w \<le> decimal 0 ?ds" "?ds \<noteq> ?us"
    | (number) "?us \<noteq> []" "\<not> 2 ^ bitsOf w \<le> decimal 0 ?ds" "?ds = ?us"
    by blast
  then show ?thesis
  proof cases
    case empty
    then show ?thesis by (simp add: Atoi_eq atoiError_def)
  next
    case over
    then show ?thesis by (simp add: Atoi_eq atoiError_def)
  next
    case nondigit
    then show ?thesis by (simp add: Atoi_eq atoiError_def del: takeWhile_eq_all_conv)
  next
    case number
    with no [of "if take 1 s = ''-'' then - decimal 0 ?us else decimal 0 ?us"]
    have "Atoi w s = Inl (ErrRange s)"
      by (simp add: Atoi_eq Let_def del: takeWhile_eq_all_conv split: if_splits)
    with number show ?thesis by (simp add: atoiError_def del: takeWhile_eq_all_conv)
  qed
qed

section \<open>The check of a downloaded body\<close>

lemma downloadAndCheck_verified:
  assumes alg: "algorithm file = ''sha1'' \<or> algorithm file = ''sha256''"
      and fetch: "fetchResponse E file suffix rq = ((Inr res, suffix'), rq')"
      and body: "Body res = Inr body"
  shows "downloadAndCheck E file suffix rq =
     ((if size_r file \<noteq> int (length body)
       then ([], suffix', Some (SizeMismatch (path_Base (Path (url file))) (size_r file) (length body)))
       else if digest file \<noteq> checksumText E file body
       then ([], suffix', Some (DigestMismatch (path_Base (Path (url file)))))
       else (body, suffix', None)), rq')"
  using assms
  by (auto simp: downloadAndCheck_def checkBody_def checksumText_def Let_def)

section \<open>The traversal and the session\<close>

lemma map_of_assign: "map_of (assign m k v) = (map_of m)(k \<mapsto> v)"
  by (induction m k v rule: assign.induct) auto

lemma rebased_fields [simp]:
  "assembly (rebased co p t u) = assembly co"
  "offline (rebased co p t u) = offline co"
  "outputDir (rebased co p t u) = outputDir co"
  "written (rebased co p t u) = written co"
  "notFound (rebased co p t u) = notFound co"
  "subset_co (rebased co p t u) = subset_co co"
  "deployedFiles (rebased co p t u) = deployedFiles co"
  "requests (rebased co p t u) = requests co"
  "noSuffix (rebased co p t u) = noSuffix co"
  by (simp_all add: rebased_def)

lemma rebased_baseUrl: "baseUrl co \<noteq> None \<Longrightarrow> baseUrl (rebased co p t u) \<noteq> None"
  by (simp add: rebased_def)

lemma notNil_map_option [simp]: "notNil (map_option f sm) = notNil sm"
  by (cases sm) (simp_all add: notNil_def)

lemma hasKey_mark:
  "hasKey (map_option (\<lambda>m. m(k \<mapsto> True)) sm) k' \<longleftrightarrow> hasKey sm k' \<or> (notNil sm \<and> k' = k)"
  by (cases sm) (auto simp: hasKey_def notNil_def)

subsection \<open>What the traversal leaves alone\<close>

lemma frame_refl: "frame co co"
  by (simp add: frame_def)

lemma frame_trans: "frame a b \<Longrightarrow> frame b c \<Longrightarrow> frame a c"
  by (simp add: frame_def)

lemma frame_step:
  assumes "retrieveStep E co p cb t = Some (out, co')"
  shows "frame co co'"
  using assms
proof (cases rule: retrieveStep_cases)
  case skipped
  then show ?thesis by (simp add: frame_def)
next
  case (failed err u new)
  then show ?thesis by (auto simp: frame_def rebased_def split: if_splits)
next
  case (downloaded content u new sfx)
  then show ?thesis by (auto simp: frame_def rebased_def split: if_splits)
qed

lemma traversal_frame:
  shows "retrieveDeployedFile n E co p cb t = Some (e, co') \<Longrightarrow> frame co co'"
    and "subApplication n E co content = Some (e, co') \<Longrightarrow> frame co co'"
    and "retrieveAllDeployedFiles n E co asm = Some (e, co') \<Longrightarrow> frame co co'"
    and "dependentLoop n E co ds = Some (r, co') \<Longrightarrow> frame co co'"
    and "fileLoop n E co fs = Some (r, co') \<Longrightarrow> frame co co'"
  by (erule traversal_rel [where Q = "\<lambda>E. frame", rotated -1];
      (rule frame_refl | erule (1) frame_trans | erule frame_step))+

subsection \<open>What the traversal does to the subset filter\<close>

lemma filterKept_refl: "filterKept co co"
  by (auto simp: filterKept_def)

lemma filterKept_trans:
  assumes ab: "filterKept a b" and bc: "filterKept b c"
  shows "filterKept a c"
  unfolding filterKept_def
proof (intro conjI allI impI)
  from ab bc show "notNil (subset_co c) = notNil (subset_co a)"
    by (simp add: filterKept_def)
next
  fix k assume "\<not> isManifest k"
  with ab bc show "hasKey (subset_co c) k = hasKey (subset_co a) k"
    by (simp add: filterKept_def)
next
  fix p
  assume c: "map_of (deployedFiles c) p \<noteq> None" and a: "map_of (deployedFiles a) p = None"
    and nn: "notNil (subset_co a)"
  from ab have nb: "notNil (subset_co b) = notNil (subset_co a)" by (simp add: filterKept_def)
  show "isManifest (nameOf p) \<or> hasKey (subset_co a) (nameOf p)"
  proof (cases "map_of (deployedFiles b) p = None")
    case True
    with bc c nn nb have "isManifest (nameOf p) \<or> hasKey (subset_co b) (nameOf p)"
      by (simp add: filterKept_def)
    moreover from ab have "\<not> isManifest (nameOf p) \<Longrightarrow>
        hasKey (subset_co b) (nameOf p) = hasKey (subset_co a) (nameOf p)"
      by (simp add: filterKept_def)
    ultimately show ?thesis by blast
  next
    case False
    with ab a nn show ?thesis by (simp add: filterKept_def)
  qed
qed

lemma filterKept_step:
  assumes "retrieveStep E co p cb t = Some (out, co')"
  shows "filterKept co co'"
  using assms
proof (cases rule: retrieveStep_cases)
  case skipped
  then show ?thesis by (auto simp: filterKept_def)
next
  case (failed err u new)
  then show ?thesis by (auto simp: filterKept_def)
next
  case (downloaded content u new sfx)
  from downloaded(2) have tr: "notNil (subset_co co) \<Longrightarrow>
      isManifest (nameOf p) \<or> hasKey (subset_co co) (nameOf p)"
    by (auto simp: traversed_def)
  have 1: "notNil (subset_co co') = notNil (subset_co co)"
    by (simp add: downloaded(4))
  have 2: "hasKey (subset_co co') k = hasKey (subset_co co) k" if "\<not> isManifest k" for k
    using that tr by (auto simp: downloaded(4) hasKey_mark)
  have 3: "isManifest (nameOf q) \<or> hasKey (subset_co co) (nameOf q)"
    if "map_of (deployedFiles co') q \<noteq> None" "map_of (deployedFiles co) q = None"
       "notNil (subset_co co)" for q
  proof -
    from that(1,2) have "q = p"
      by (auto simp: downloaded(4) map_of_assign split: if_splits)
    with tr that(3) show ?thesis by simp
  qed
  from 1 2 3 show ?thesis unfolding filterKept_def by blast
qed

lemma traversal_filterKept:
  shows "retrieveDeployedFile n E co p cb t = Some (e, co') \<Longrightarrow> filterKept co co'"
    and "subApplication n E co content = Some (e, co') \<Longrightarrow> filterKept co co'"
    and "retrieveAllDeployedFiles n E co asm = Some (e, co') \<Longrightarrow> filterKept co co'"
    and "dependentLoop n E co ds = Some (r, co') \<Longrightarrow> filterKept co co'"
    and "fileLoop n E co fs = Some (r, co') \<Longrightarrow> filterKept co co'"
  by (erule traversal_rel [where Q = "\<lambda>E. filterKept", rotated -1];
      (rule filterKept_refl | erule (1) filterKept_trans | erule filterKept_step))+

section \<open>Subsets and saving\<close>

lemma initSubset_loop_ok:
  "[] \<notin> set names \<Longrightarrow>
   initSubset_loop m names = (None, \<lambda>k. if k \<in> set names then Some False else m k)"
proof (induction names arbitrary: m)
  case Nil
  then show ?case by simp
next
  case (Cons s rest)
  then have "initSubset_loop (m(s \<mapsto> False)) rest =
      (None, \<lambda>k. if k \<in> set rest then Some False else (m(s \<mapsto> False)) k)"
    by simp
  with Cons.prems show ?case by (auto simp: fun_eq_iff)
qed

lemma initSubset_ok:
  "[] \<notin> set names \<Longrightarrow>
   initSubset co names =
     (None, co\<lparr>subset_co := Some (\<lambda>k. if k \<in> set names then Some False else None)\<rparr>)"
  by (simp add: initSubset_def initSubset_loop_ok)


lemma checkDownload_loop_eq:
  "checkDownload_loop m paths =
     (\<lambda>k. if m k \<noteq> None \<and> k \<in> nameOf ` set paths then Some True else m k)"
proof (induction paths arbitrary: m)
  case Nil
  then show ?case by simp
next
  case (Cons p rest)
  show ?case by (auto simp: Cons.IH Let_def fun_eq_iff)
qed

lemma findSubset_loop_eq:
  "findSubset_loop co names = co\<lparr>notFound := notFound co + length (unflagged co names)\<rparr>"
proof (induction names arbitrary: co)
  case Nil
  then show ?case by (simp add: unflagged_def)
next
  case (Cons s rest)
  show ?case by (simp add: Cons.IH unflagged_def)
qed

lemma saveDeployedFile_eq:
  "saveDeployedFile E co p content = (e, co') \<Longrightarrow>
   (e = None \<longrightarrow>
      co' = co\<lparr>written := written co @
                (if keeps co p then [(path_Join E (outputDir co) (backslashToSlash p), content)]
                 else [])\<rparr>) \<and>
   (e \<noteq> None \<longrightarrow> co' = co)"
  by (auto simp: saveDeployedFile_def keeps_def Let_def split: if_splits option.splits)

lemma saveAll_loop_eq:
  "saveAll_loop E co entries = (e, co') \<Longrightarrow>
   \<exists>w. co' = co\<lparr>written := written co @ w\<rparr> \<and> set w \<subseteq> set (savedList E co entries) \<and>
       (e = None \<longrightarrow> w = savedList E co entries)"
proof (induction entries arbitrary: co e co')
  case Nil
  then show ?case by (simp add: savedList_def)
next
  case (Cons kv rest)
  obtain p f where kv: "kv = (p, f)" by (cases kv)
  obtain e1 co1 where s: "saveDeployedFile E co p (Content f) = (e1, co1)"
    by (cases "saveDeployedFile E co p (Content f)")
  note s1 = saveDeployedFile_eq [OF s]
  show ?case
  proof (cases e1)
    case (Some err)
    with Cons.prems kv s s1 have "e = Some err" "co' = co\<lparr>written := written co @ []\<rparr>"
      by auto
    then show ?thesis by (intro exI [of _ "[]"]) simp
  next
    case None
    let ?w1 = "if keeps co p then [(path_Join E (outputDir co) (backslashToSlash p), Content f)]
               else []"
    from None s1 have co1: "co1 = co\<lparr>written := written co @ ?w1\<rparr>" by simp
    from None Cons.prems kv s have "saveAll_loop E co1 rest = (e, co')" by simp
    from Cons.IH [OF this] obtain w where
      w: "co' = co1\<lparr>written := written co1 @ w\<rparr>" "set w \<subseteq> set (savedList E co1 rest)"
         "e = None \<longrightarrow> w = savedList E co1 rest"
      by blast
    have same: "savedList E co1 rest = savedList E co rest"
      by (simp add: co1 savedList_def savedFile_def keeps_def)
    have split: "savedList E co (kv # rest) = ?w1 @ savedList E co rest"
      by (simp add: savedList_def savedFile_def kv)
    from w same split co1 show ?thesis
      by (intro exI [of _ "?w1 @ w"]) auto
  qed
qed

lemma unflagged_count:
  "length (unflagged co names) = length names \<longleftrightarrow> (\<forall>s\<in>set names. \<not> flagOf (subset_co co) s)"
  unfolding unflagged_def
  by (metis (mono_tags, lifting) filter_id_conv length_filter_le filter_True
        length_filter_less not_less_iff_gr_or_eq order.strict_iff_not)

lemma unflagged_empty:
  "unflagged co names = [] \<longleftrightarrow> (\<forall>s\<in>set names. flagOf (subset_co co) s)"
  by (auto simp: unflagged_def filter_empty_conv)

lemma findSubset_eq:
  "findSubset co names =
     (if length (unflagged co names) + notFound co = length names
      then Some NoneOfRequestedFound else None,
      co\<lparr>notFound := notFound co + length (unflagged co names)\<rparr>)"
  by (auto simp: findSubset_def findSubset_loop_eq Let_def)

lemma saveDeployedFile_error:
  "saveDeployedFile E co p content = (e, co') \<Longrightarrow> e = None \<or> (\<exists>msg. e = Some (LibraryError msg))"
  by (auto simp: saveDeployedFile_def Let_def split: if_splits option.splits)

lemma saveAll_loop_error:
  "saveAll_loop E co kvs = (e, co') \<Longrightarrow> e = None \<or> (\<exists>msg. e = Some (LibraryError msg))"
proof (induction kvs arbitrary: co)
  case Nil
  then show ?case by simp
next
  case (Cons kv rest)
  obtain p f where kv: "kv = (p, f)" by (cases kv)
  obtain e1 co1 where s: "saveDeployedFile E co p (Content f) = (e1, co1)"
    by (cases "saveDeployedFile E co p (Content f)")
  from saveDeployedFile_error [OF s] Cons kv s show ?case
    by (cases e1) auto
qed

text \<open>The part of \<open>Get\<close> after the traversal.\<close>

lemma Get_finish_all:
  assumes "Get_finish E co [] = (e, co')"
  shows "\<exists>w. co' = co\<lparr>notFound := 0, written := written co @ w\<rparr> \<and>
           set w \<subseteq> set (savedList E co (deployedFiles co)) \<and>
           (e = None \<or> (\<exists>msg. e = Some (LibraryError msg))) \<and>
           (e = None \<longrightarrow> w = (if outputDir co = [] then [] else savedList E co (deployedFiles co)))"
proof (cases "outputDir co = []")
  case True
  with assms have "e = None" "co' = co\<lparr>notFound := 0, written := written co @ []\<rparr>"
    by (auto simp: Get_finish_def Let_def)
  with True show ?thesis by (intro exI [of _ "[]"]) simp
next
  case False
  obtain e1 co1 where s: "saveAll_loop E (co\<lparr>notFound := 0\<rparr>) (deployedFiles co) = (e1, co1)"
    by (cases "saveAll_loop E (co\<lparr>notFound := 0\<rparr>) (deployedFiles co)")
  from saveAll_loop_eq [OF s] obtain w where
    w: "co1 = co\<lparr>notFound := 0, written := written co @ w\<rparr>"
       "set w \<subseteq> set (savedList E (co\<lparr>notFound := 0\<rparr>) (deployedFiles co))"
       "e1 = None \<longrightarrow> w = savedList E (co\<lparr>notFound := 0\<rparr>) (deployedFiles co)"
    by auto
  have same: "savedList E (co\<lparr>notFound := 0\<rparr>) kvs = savedList E co kvs" for kvs
    by (simp add: savedList_def savedFile_def keeps_def)
  from assms False s have "e = e1" "co' = co1"
    by (auto simp: Get_finish_def Let_def saveAllDeployedFiles_def split: option.splits)
  moreover from s have "e1 = None \<or> (\<exists>msg. e1 = Some (LibraryError msg))"
    by (rule saveAll_loop_error)
  ultimately show ?thesis using w False same by (intro exI [of _ w]) auto
qed

lemma Get_finish_fields:
  assumes "Get_finish E co names = (e, co')"
  shows "\<exists>w. co' = co\<lparr>notFound := (if names = [] then 0 else length (unflagged co names)),
                      written := written co @ w\<rparr> \<and>
             set w \<subseteq> set (savedList E co (deployedFiles co))"
proof (cases "names = []")
  case True
  with assms Get_finish_all [of E co e co'] show ?thesis by auto
next
  case False
  let ?co1 = "co\<lparr>notFound := length (unflagged co names)\<rparr>"
  have f: "findSubset (co\<lparr>notFound := 0\<rparr>) names =
      (if length (unflagged co names) = length names then Some NoneOfRequestedFound else None, ?co1)"
    by (simp add: findSubset_eq unflagged_def)
  show ?thesis
  proof (cases "length (unflagged co names) = length names \<or> outputDir co = []")
    case True
    with assms False f have "co' = ?co1\<lparr>written := written co @ []\<rparr>"
      by (auto simp: Get_finish_def Let_def split: if_splits)
    with False show ?thesis by (intro exI [of _ "[]"]) simp
  next
    case no: False
    obtain e1 co1 where s: "saveAll_loop E ?co1 (deployedFiles co) = (e1, co1)"
      by (cases "saveAll_loop E ?co1 (deployedFiles co)")
    from saveAll_loop_eq [OF s] obtain w where
      w: "co1 = ?co1\<lparr>written := written co @ w\<rparr>"
         "set w \<subseteq> set (savedList E ?co1 (deployedFiles co))"
      by auto
    have same: "savedList E ?co1 kvs = savedList E co kvs" for kvs
      by (simp add: savedList_def savedFile_def keeps_def)
    from assms False f no s have "co' = co1"
      by (auto simp: Get_finish_def Let_def saveAllDeployedFiles_def split: option.splits if_splits)
    with w same False show ?thesis by (intro exI [of _ w]) simp
  qed
qed

lemma Get_finish_none_found:
  assumes "Get_finish E co names = (e, co')" "names \<noteq> []"
      and "\<forall>s\<in>set names. \<not> flagOf (subset_co co) s"
  shows "e = Some NoneOfRequestedFound" "written co' = written co"
proof -
  from assms(3) have "length (unflagged co names) = length names"
    by (simp add: unflagged_count)
  then have f: "findSubset (co\<lparr>notFound := 0\<rparr>) names =
      (Some NoneOfRequestedFound, co\<lparr>notFound := length names\<rparr>)"
    by (simp add: findSubset_eq unflagged_def)
  with assms(1,2) show "e = Some NoneOfRequestedFound" "written co' = written co"
    by (auto simp: Get_finish_def Let_def)
qed

lemma Get_finish_some_found:
  assumes g: "Get_finish E co names = (e, co')" and ne: "names \<noteq> []"
      and some: "\<exists>s\<in>set names. flagOf (subset_co co) s"
  shows "e = None \<or> e = Some NotAllRequestedFound \<or> (\<exists>msg. e = Some (LibraryError msg))"
    and "(\<exists>s\<in>set names. \<not> flagOf (subset_co co) s) \<Longrightarrow> e \<noteq> None"
    and "(\<forall>s\<in>set names. flagOf (subset_co co) s) \<Longrightarrow> e \<noteq> Some NotAllRequestedFound"
    and "e = None \<or> e = Some NotAllRequestedFound \<Longrightarrow>
           written co' = written co @
             (if outputDir co = [] then [] else savedList E co (deployedFiles co))"
proof -
  let ?k = "length (unflagged co names)"
  let ?co1 = "co\<lparr>notFound := ?k\<rparr>"
  from some have k: "?k \<noteq> length names" by (simp add: unflagged_count)
  then have f: "findSubset (co\<lparr>notFound := 0\<rparr>) names = (None, ?co1)"
    by (simp add: findSubset_eq unflagged_def)
  obtain e1 co1 where s: "saveAll_loop E ?co1 (deployedFiles co) = (e1, co1)"
    by (cases "saveAll_loop E ?co1 (deployedFiles co)")
  from saveAll_loop_eq [OF s] obtain w where
    w: "co1 = ?co1\<lparr>written := written co @ w\<rparr>"
       "e1 = None \<longrightarrow> w = savedList E ?co1 (deployedFiles co)"
    by auto
  have same: "savedList E ?co1 kvs = savedList E co kvs" for kvs
    by (simp add: savedList_def savedFile_def keeps_def)
  note err = saveAll_loop_error [OF s]
  have k0: "?k = 0 \<longleftrightarrow> (\<forall>s\<in>set names. flagOf (subset_co co) s)"
    using unflagged_empty [of co names] by simp
  have r: "(e, co') =
      (if outputDir co = [] then
         (if ?k \<noteq> 0 then (Some NotAllRequestedFound, ?co1) else (None, ?co1))
       else if e1 \<noteq> None then (e1, co1)
       else if ?k \<noteq> 0 then (Some NotAllRequestedFound, co1) else (None, co1))"
    using g ne f s w
    by (auto simp: Get_finish_def Let_def saveAllDeployedFiles_def split: option.splits)
  from r err show "e = None \<or> e = Some NotAllRequestedFound \<or> (\<exists>msg. e = Some (LibraryError msg))"
    by (auto split: if_splits)
  from r k0 show "(\<exists>s\<in>set names. \<not> flagOf (subset_co co) s) \<Longrightarrow> e \<noteq> None"
    by (auto split: if_splits)
  from r k0 err show "(\<forall>s\<in>set names. flagOf (subset_co co) s) \<Longrightarrow> e \<noteq> Some NotAllRequestedFound"
    by (auto split: if_splits)
  from r err w same show "e = None \<or> e = Some NotAllRequestedFound \<Longrightarrow>
           written co' = written co @
             (if outputDir co = [] then [] else savedList E co (deployedFiles co))"
    by (auto split: if_splits)
qed

lemma flagOf_mark:
  "flagOf (map_option (\<lambda>m. m(k \<mapsto> True)) sm) k' \<longleftrightarrow> flagOf sm k' \<or> (notNil sm \<and> k' = k)"
  by (cases sm) (auto simp: flagOf_def notNil_def)

subsection \<open>Flags and the result mapping\<close>

lemma marks_refl: "marks co co"
  by (simp add: marks_def)

lemma marks_trans:
  assumes ab: "marks a b" and bc: "marks b c"
  shows "marks a c"
  unfolding marks_def
proof (intro conjI allI impI)
  fix p v assume "map_of (deployedFiles a) p = Some v"
  with ab bc show "map_of (deployedFiles c) p = Some v" by (simp add: marks_def)
next
  fix k assume "flagOf (subset_co c) k"
  with bc have "flagOf (subset_co b) k \<or> (\<exists>p. map_of (deployedFiles c) p \<noteq> None \<and> nameOf p = k)"
    by (simp add: marks_def)
  then show "flagOf (subset_co a) k \<or> (\<exists>p. map_of (deployedFiles c) p \<noteq> None \<and> nameOf p = k)"
  proof
    assume "flagOf (subset_co b) k"
    with ab have "flagOf (subset_co a) k \<or> (\<exists>p. map_of (deployedFiles b) p \<noteq> None \<and> nameOf p = k)"
      by (simp add: marks_def)
    then show ?thesis
    proof
      assume "\<exists>p. map_of (deployedFiles b) p \<noteq> None \<and> nameOf p = k"
      then obtain p v where "map_of (deployedFiles b) p = Some v" "nameOf p = k" by auto
      with bc have "map_of (deployedFiles c) p = Some v" "nameOf p = k" by (simp_all add: marks_def)
      then show ?thesis by auto
    qed simp
  qed simp
qed

lemma marks_step:
  assumes "retrieveStep E co p cb t = Some (out, co')"
  shows "marks co co'"
  using assms
proof (cases rule: retrieveStep_cases)
  case skipped
  then show ?thesis by (simp add: marks_def)
next
  case (failed err u new)
  then show ?thesis by (auto simp: marks_def)
next
  case (downloaded content u new sfx)
  from downloaded(2) have fresh: "map_of (deployedFiles co) p = None" by (simp add: traversed_def)
  have 1: "map_of (deployedFiles co') q = Some v" if "map_of (deployedFiles co) q = Some v" for q v
    using that fresh by (auto simp: downloaded(4) map_of_assign)
  have 2: "flagOf (subset_co co) k \<or> (\<exists>q. map_of (deployedFiles co') q \<noteq> None \<and> nameOf q = k)"
    if "flagOf (subset_co co') k" for k
  proof -
    from that have "flagOf (subset_co co) k \<or> k = nameOf p"
      by (auto simp: downloaded(4) flagOf_mark)
    moreover have "map_of (deployedFiles co') p \<noteq> None"
      by (simp add: downloaded(4) map_of_assign)
    ultimately show ?thesis by blast
  qed
  from 1 2 show ?thesis unfolding marks_def by blast
qed

lemma traversal_marks:
  shows "retrieveDeployedFile n E co p cb t = Some (e, co') \<Longrightarrow> marks co co'"
    and "subApplication n E co content = Some (e, co') \<Longrightarrow> marks co co'"
    and "retrieveAllDeployedFiles n E co asm = Some (e, co') \<Longrightarrow> marks co co'"
    and "dependentLoop n E co ds = Some (r, co') \<Longrightarrow> marks co co'"
    and "fileLoop n E co fs = Some (r, co') \<Longrightarrow> marks co co'"
  by (erule traversal_rel [where Q = "\<lambda>E. marks", rotated -1];
      (rule marks_refl | erule (1) marks_trans | erule marks_step))+

lemma deployed_names:
  "k \<in> nameOf ` set (map fst kvs) \<longleftrightarrow> (\<exists>p. map_of kvs p \<noteq> None \<and> nameOf p = k)"
proof -
  have "map_of kvs p \<noteq> None \<longleftrightarrow> p \<in> set (map fst kvs)" for p
    by (simp add: map_of_eq_None_iff)
  then show ?thesis by blast
qed

lemma checkDownload_Some:
  "subset_co co = Some m \<Longrightarrow>
   subset_co (checkDownload co) =
     Some (\<lambda>k. if m k \<noteq> None \<and> k \<in> nameOf ` set (map fst (deployedFiles co))
                then Some True else m k)"
  by (simp add: checkDownload_def checkDownload_loop_eq)

lemma checkDownload_None: "subset_co co = None \<Longrightarrow> checkDownload co = co"
  by (simp add: checkDownload_def)

lemma checkDownload_flags:
  "flagOf (subset_co (checkDownload co)) k \<longleftrightarrow>
     flagOf (subset_co co) k \<or>
     (hasKey (subset_co co) k \<and> (\<exists>p. map_of (deployedFiles co) p \<noteq> None \<and> nameOf p = k))"
proof (cases "subset_co co")
  case None
  then show ?thesis by (simp add: checkDownload_None flagOf_def hasKey_def)
next
  case (Some m)
  show ?thesis
    unfolding checkDownload_Some [OF Some] Some deployed_names [symmetric]
    by (simp add: flagOf_def hasKey_def split: option.splits)
qed

lemma checkDownload_fields:
  "deployedFiles (checkDownload co) = deployedFiles co"
  "requests (checkDownload co) = requests co"
  "written (checkDownload co) = written co"
  "outputDir (checkDownload co) = outputDir co"
  "offline (checkDownload co) = offline co"
  "baseUrl (checkDownload co) = baseUrl co"
  "assembly (checkDownload co) = assembly co"
  "noSuffix (checkDownload co) = noSuffix co"
  by (simp_all add: checkDownload_def split: option.splits)


section \<open>The public operations\<close>

lemma Get_runs:
  assumes "baseUrl co = Some b" "assembly co = Some asm" "[] \<notin> set names"
  shows "Get n E co names =
     (if offline co
      then Some (Get_finish E (if names = [] then co else checkDownload (withSubset co names)) names)
      else (case retrieveAllDeployedFiles n E (withSubset co names) asm of
              None \<Rightarrow> None
            | Some (err, co2) \<Rightarrow> Some (Get_finish E co2 names)))"
proof -
  have i: "(if names \<noteq> [] then initSubset co names else (None, co)) = (None, withSubset co names)"
    using assms(3) by (simp add: initSubset_ok withSubset_def)
  have nil: "(case retrieveAllDeployedFiles n E c asm of
               None \<Rightarrow> None
             | Some (Some err, co2) \<Rightarrow> Some (Some err, co2)
             | Some (None, co2) \<Rightarrow> Some (Get_finish E co2 names)) =
            (case retrieveAllDeployedFiles n E c asm of
               None \<Rightarrow> None
             | Some (err, co2) \<Rightarrow> Some (Get_finish E co2 names))" for c
    using retrieveAllDeployedFiles_returns_nil [of n E c asm]
    by (auto split: option.splits)
  have off: "offline (withSubset co names) = offline co" by (simp add: withSubset_def)
  show ?thesis
    unfolding Get_def using assms(1,2)
    by (simp add: i Let_def nil off withSubset_def)
qed

lemma withSubset_flags: "names \<noteq> [] \<Longrightarrow> \<not> flagOf (subset_co (withSubset co names)) k"
  by (simp add: withSubset_def flagOf_def)


lemma withSubset_fields:
  "deployedFiles (withSubset co names) = deployedFiles co"
  "requests (withSubset co names) = requests co"
  "written (withSubset co names) = written co"
  "outputDir (withSubset co names) = outputDir co"
  "offline (withSubset co names) = offline co"
  "baseUrl (withSubset co names) = baseUrl co"
  "assembly (withSubset co names) = assembly co"
  by (simp_all add: withSubset_def)

text \<open>
  \<open>Get\<close> with a subset and no empty name ends in \<open>Get_finish\<close>, from a session whose
  set flags all belong to names of entries of the result mapping.
\<close>

lemma Get_subset_finish:
  assumes init: "baseUrl co = Some b" "assembly co = Some asm"
      and names: "names \<noteq> []" "[] \<notin> set names"
      and get: "Get n E co names = Some (e, co')"
  obtains co2 where "Get_finish E co2 names = (e, co')" "outputDir co2 = outputDir co"
    "written co2 = written co"
    "\<And>k. flagOf (subset_co co2) k \<Longrightarrow> \<exists>p. map_of (deployedFiles co2) p \<noteq> None \<and> nameOf p = k"
proof (cases "offline co")
  case True
  let ?co2 = "checkDownload (withSubset co names)"
  from get True names have g: "Get_finish E ?co2 names = (e, co')"
    by (simp add: Get_runs [OF init names(2)])
  have "\<exists>p. map_of (deployedFiles ?co2) p \<noteq> None \<and> nameOf p = k"
    if "flagOf (subset_co ?co2) k" for k
    using that names(1)
    by (auto simp: checkDownload_flags checkDownload_fields withSubset_flags)
  with g show ?thesis
    by (intro that [of ?co2]) (simp_all add: checkDownload_fields withSubset_fields)
next
  case False
  with get obtain err co2 where
    r: "retrieveAllDeployedFiles n E (withSubset co names) asm = Some (err, co2)"
    and g: "Get_finish E co2 names = (e, co')"
    by (auto simp: Get_runs [OF init names(2)] split: option.splits)
  from traversal_frame(3) [OF r] have f: "outputDir co2 = outputDir co" "written co2 = written co"
    by (simp_all add: frame_def withSubset_fields)
  from traversal_marks(3) [OF r] names(1)
  have "\<exists>p. map_of (deployedFiles co2) p \<noteq> None \<and> nameOf p = k"
    if "flagOf (subset_co co2) k" for k
    using that by (auto simp: marks_def withSubset_flags)
  with g f show ?thesis by (intro that [of co2])
qed

lemma saved_member:
  assumes "map_of kvs p = Some f" "keeps co p"
  shows "savedFile E co (p, f) \<in> set (savedList E co kvs)"
proof -
  from assms(1) have "(p, f) \<in> set kvs" by (rule map_of_SomeD)
  with assms(2) show ?thesis by (force simp: savedList_def)
qed


lemma initSubset_error:
  "initSubset co names = (e, co') \<Longrightarrow> e = None \<or> e = Some EmptyFilenameInSubset"
proof -
  have "fst (initSubset_loop m names) = None \<or> fst (initSubset_loop m names) = Some EmptyFilenameInSubset"
    for m by (induction names arbitrary: m) auto
  then show "initSubset co names = (e, co') \<Longrightarrow> e = None \<or> e = Some EmptyFilenameInSubset"
    by (auto simp: initSubset_def split: prod.splits) (metis fst_conv)+
qed






lemma notNil_Some: "notNil sm \<Longrightarrow> \<exists>m. sm = Some m"
  by (cases sm) (simp_all add: notNil_def)

lemma savedList_member:
  assumes "x \<in> set (savedList E co kvs)"
  shows "\<exists>p f. (p, f) \<in> set kvs \<and> x = savedFile E co (p, f) \<and> keeps co p"
  using assms by (fastforce simp: savedList_def)

text \<open>\<open>Get\<close> without a subset is a traversal, or none, followed by the saving step.\<close>

lemma Get_all_steps:
  assumes get: "Get n E co [] = Some (e, co')"
  shows "\<exists>co2 w. filterKept co co2 \<and> written co2 = written co \<and>
           subset_co co' = subset_co co2 \<and> deployedFiles co' = deployedFiles co2 \<and>
           outputDir co' = outputDir co2 \<and> written co' = written co2 @ w \<and>
           set w \<subseteq> set (savedList E co2 (deployedFiles co2))"
proof (cases "baseUrl co = None \<or> assembly co = None")
  case True
  with get have "co' = co" by (auto simp: Get_def split: option.splits)
  then show ?thesis
    by (intro exI [of _ co] exI [of _ "[]"]) (simp add: filterKept_refl)
next
  case False
  then obtain b asm where init: "baseUrl co = Some b" "assembly co = Some asm" by auto
  have ok: "[] \<notin> set ([] :: string list)" by simp
  have "\<exists>co2. filterKept co co2 \<and> written co2 = written co \<and> Get_finish E co2 [] = (e, co')"
  proof (cases "offline co")
    case True
    with get have "Get_finish E co [] = (e, co')" by (simp add: Get_runs [OF init ok])
    then show ?thesis by (intro exI [of _ co]) (simp add: filterKept_refl)
  next
    case False
    with get obtain err co2 where
      r: "retrieveAllDeployedFiles n E co asm = Some (err, co2)"
      and f: "Get_finish E co2 [] = (e, co')"
      by (auto simp: Get_runs [OF init ok] withSubset_def split: option.splits)
    from traversal_frame(3) [OF r] have "written co2 = written co" by (simp add: frame_def)
    with traversal_filterKept(3) [OF r] f show ?thesis by blast
  qed
  then obtain co2 where k: "filterKept co co2" and wr: "written co2 = written co"
    and f: "Get_finish E co2 [] = (e, co')"
    by blast
  from Get_finish_fields [OF f] obtain w where
    w: "co' = co2\<lparr>notFound := 0, written := written co2 @ w\<rparr>"
       "set w \<subseteq> set (savedList E co2 (deployedFiles co2))"
    by auto
  from w(1) have "subset_co co' = subset_co co2" "deployedFiles co' = deployedFiles co2"
    "outputDir co' = outputDir co2" "written co' = written co2 @ w"
    by simp_all
  with k wr w(2) show ?thesis by blast
qed

lemma GetAll_steps:
  assumes "GetAll n E co = Some (e, co')"
  shows "\<exists>c. Get n E co [] = Some (e, c) \<and> subset_co co' = subset_co c \<and>
           deployedFiles co' = deployedFiles c \<and> outputDir co' = outputDir c \<and>
           written co' = written c"
  using assms by (auto simp: GetAll_def split: option.splits)

subsection \<open>The base URL\<close>

















section \<open>Claims\<close>

text \<open>
  C1. The claim asks that the first error of an entry ends the traversal and is returned
  by \<open>Get\<close>. Both loops of \<open>retrieveAllDeployedFiles\<close> leave with \<open>return nil\<close> when
  \<open>retrieveDeployedFile\<close> has returned an error (lemma
  \<open>retrieveAllDeployedFiles_returns_nil\<close>). In the application \<open>bad\<close> the file
  \<open>c.bin\<close> of the nested manifest has the size \<open>abc\<close>: retrieving it returns the
  syntax error of \<open>Atoi\<close>, the traversal of the nested manifest returns nil, the parent
  goes on to download \<open>d.txt\<close>, and \<open>Get\<close> and \<open>GetAll\<close> return nil.
\<close>

theorem C1_failing_entry_is_not_reported:
  "map fst (deployedFiles bad_in_manifest) = [''bad.manifest''] \<and>
   map_option fst
     (retrieveDeployedFile 0 sampleEnv bad_in_manifest ''c.bin''
        (entry ''abc'' xmldsig_sha1 ''MtEMe4z5ZXDKBM438qGdhCQNOok='') NonAssemblyFile) =
     Some (Some (ErrSyntax ''abc'')) \<and>
   map_option fst (subApplication (Suc 0) sampleEnv bad_in_manifest body_bad_manifest) =
     Some None \<and>
   map_option fst (Get (Suc 0) sampleEnv bad_session []) = Some None \<and>
   map fst (deployedFiles (sessionAfter (Get (Suc 0) sampleEnv bad_session []) bad_session)) =
     [''bad.manifest'', ''d.txt''] \<and>
   requests (sessionAfter (Get (Suc 0) sampleEnv bad_session []) bad_session) =
     [''http://h/bad/bad.application'', ''http://h/bad/bad.manifest'', ''http://h/bad/d.txt.deploy''] \<and>
   map_option fst (GetAll (Suc 0) sampleEnv bad_session) = Some None \<and>
   offline (sessionAfter (GetAll (Suc 0) sampleEnv bad_session) bad_session)"
  by code_simp

text \<open>
  C2. Let the algorithm of a remote file be supported and let the download part of
  \<open>downloadAndCheck\<close> hand a response with body \<open>body\<close> to the check. Then the
  function returns \<open>body\<close> without error exactly when the length of \<open>body\<close> is the
  declared size and the base64 text of its SHA-1 or SHA-256 digest is the declared
  digest; another length gives the size-mismatch error, the right length with another
  digest gives the digest-mismatch error; and when the check fails for an entry that
  \<open>retrieveDeployedFile\<close> downloads, the call returns an error and the result mapping
  is as before, without the entry.
\<close>

theorem C2_body_is_verified:
  assumes alg: "algorithm file = ''sha1'' \<or> algorithm file = ''sha256''"
      and fetch: "fetchResponse E file suffix rq = ((Inr res, suffix'), rq')"
      and body: "Body res = Inr body"
  shows "(downloadAndCheck E file suffix rq = ((body, suffix', None), rq') \<longleftrightarrow>
            size_r file = int (length body) \<and> digest file = checksumText E file body) \<and>
         (size_r file \<noteq> int (length body) \<longrightarrow>
            downloadAndCheck E file suffix rq =
              (([], suffix', Some (SizeMismatch (path_Base (Path (url file))) (size_r file)
                                     (length body))), rq')) \<and>
         (size_r file = int (length body) \<and> digest file \<noteq> checksumText E file body \<longrightarrow>
            downloadAndCheck E file suffix rq =
              (([], suffix', Some (DigestMismatch (path_Base (Path (url file))))), rq')) \<and>
         (\<forall>n co p cb t b u.
            traversed co p \<and> baseUrl co = Some b \<and>
            URL_Parse E b (backslashToSlash p) = Inr u \<and> remoteFileInfo E u cb = Inr file \<and>
            suffix = (\<not> noSuffix co) \<and> rq = requests co \<and>
            \<not> (size_r file = int (length body) \<and> digest file = checksumText E file body) \<longrightarrow>
            (\<exists>err co'. retrieveDeployedFile n E co p cb t = Some (Some err, co') \<and>
               deployedFiles co' = deployedFiles co \<and> map_of (deployedFiles co') p = None))"
proof -
  note d = downloadAndCheck_verified [OF assms]
  have 1: "downloadAndCheck E file suffix rq = ((body, suffix', None), rq') \<longleftrightarrow>
            size_r file = int (length body) \<and> digest file = checksumText E file body"
    by (simp add: d)
  have 2: "size_r file \<noteq> int (length body) \<longrightarrow>
            downloadAndCheck E file suffix rq =
              (([], suffix', Some (SizeMismatch (path_Base (Path (url file))) (size_r file)
                                     (length body))), rq')"
    by (simp add: d)
  have 3: "size_r file = int (length body) \<and> digest file \<noteq> checksumText E file body \<longrightarrow>
            downloadAndCheck E file suffix rq =
              (([], suffix', Some (DigestMismatch (path_Base (Path (url file))))), rq')"
    by (simp add: d)
  have 4: "\<exists>err co'. retrieveDeployedFile n E co p cb t = Some (Some err, co') \<and>
               deployedFiles co' = deployedFiles co \<and> map_of (deployedFiles co') p = None"
    if h: "traversed co p" "baseUrl co = Some b"
       "URL_Parse E b (backslashToSlash p) = Inr u" "remoteFileInfo E u cb = Inr file"
       "suffix = (\<not> noSuffix co)" "rq = requests co"
       "\<not> (size_r file = int (length body) \<and> digest file = checksumText E file body)"
    for n co p cb t b u
  proof -
    from h(7) d obtain err where
      "downloadAndCheck E file suffix rq = (([], suffix', Some err), rq')"
      by (auto split: if_splits)
    with h have "retrieveStep E co p cb t =
        Some (Returned (Some err), (rebased co p t u)\<lparr>requests := rq'\<rparr>)"
      by (simp add: retrieveStep_traversed)
    then have "retrieveDeployedFile n E co p cb t =
        Some (Some err, (rebased co p t u)\<lparr>requests := rq'\<rparr>)"
      by (simp add: retrieveDeployedFile.simps)
    moreover have "deployedFiles ((rebased co p t u)\<lparr>requests := rq'\<rparr>) = deployedFiles co"
      by (simp add: rebased_def)
    moreover from h(1) have "map_of (deployedFiles co) p = None" by (simp add: traversed_def)
    ultimately show ?thesis by simp
  qed
  from 1 2 3 4 show ?thesis by blast
qed

theorem C2_witness:
  "fetchResponse sampleEnv (a_exe_file 1 ''bc1M4j2I4u6VaLpUbAB8Y9kTHBs='') True
       (requests app_v1_session) =
     ((Inr a_exe_response, True), requests app_v1_session @ [''http://h/app/v1/a.exe.deploy'']) \<and>
   downloadAndCheck sampleEnv (a_exe_file 1 ''bc1M4j2I4u6VaLpUbAB8Y9kTHBs='') True
       (requests app_v1_session) =
     ((''A'', True, None), requests app_v1_session @ [''http://h/app/v1/a.exe.deploy'']) \<and>
   downloadAndCheck sampleEnv (a_exe_file 2 ''bc1M4j2I4u6VaLpUbAB8Y9kTHBs='') True
       (requests app_v1_session) =
     (([], True, Some (SizeMismatch ''a.exe'' 2 1)),
      requests app_v1_session @ [''http://h/app/v1/a.exe.deploy'']) \<and>
   downloadAndCheck sampleEnv (a_exe_file 1 ''AAAAAAAAAAAAAAAAAAAAAAAAAAA='') True
       (requests app_v1_session) =
     (([], True, Some (DigestMismatch ''a.exe'')),
      requests app_v1_session @ [''http://h/app/v1/a.exe.deploy'']) \<and>
   traversed app_v1_session ''a.exe'' \<and>
   deployedFiles
     (sessionAfter
        (retrieveDeployedFile 0 sampleEnv app_v1_session ''a.exe''
           (entry ''2'' xmldsig_sha1 ''bc1M4j2I4u6VaLpUbAB8Y9kTHBs='') NonAssemblyFile)
        newClickOnce) = deployedFiles app_v1_session \<and>
   retrieveDeployedFile 0 sampleEnv app_v1_session ''a.exe''
           (entry ''2'' xmldsig_sha1 ''bc1M4j2I4u6VaLpUbAB8Y9kTHBs='') NonAssemblyFile \<noteq> None"
proof -
  let ?dg = "''bc1M4j2I4u6VaLpUbAB8Y9kTHBs=''"
  let ?bad = "''AAAAAAAAAAAAAAAAAAAAAAAAAAA=''"
  let ?rq = "requests app_v1_session"
  let ?rq' = "requests app_v1_session @ [''http://h/app/v1/a.exe.deploy'']"
  have b: "Body a_exe_response = Inr ''A''" by (simp add: a_exe_response_def)
  have f1: "fetchResponse sampleEnv (a_exe_file 1 ?dg) True ?rq = ((Inr a_exe_response, True), ?rq')"
    by code_simp
  have f2: "fetchResponse sampleEnv (a_exe_file 2 ?dg) True ?rq = ((Inr a_exe_response, True), ?rq')"
    by code_simp
  have f3: "fetchResponse sampleEnv (a_exe_file 1 ?bad) True ?rq = ((Inr a_exe_response, True), ?rq')"
    by code_simp
  have alg: "algorithm (a_exe_file sz dg) = ''sha1'' \<or> algorithm (a_exe_file sz dg) = ''sha256''"
    for sz dg by (simp add: a_exe_file_def)
  have ok1: "size_r (a_exe_file 1 ?dg) = int (length ''A'') \<and>
             digest (a_exe_file 1 ?dg) = checksumText sampleEnv (a_exe_file 1 ?dg) ''A''"
    by code_simp
  have no2: "size_r (a_exe_file 2 ?dg) \<noteq> int (length ''A'')" by code_simp
  have no3: "size_r (a_exe_file 1 ?bad) = int (length ''A'') \<and>
             digest (a_exe_file 1 ?bad) \<noteq> checksumText sampleEnv (a_exe_file 1 ?bad) ''A''"
    by code_simp
  have nm: "path_Base (Path (url (a_exe_file sz dg))) = ''a.exe''" for sz dg by code_simp
  note t1 = C2_body_is_verified [OF alg f1 b]
  note t2 = C2_body_is_verified [OF alg f2 b]
  note t3 = C2_body_is_verified [OF alg f3 b]
  from t1 ok1 have r1: "downloadAndCheck sampleEnv (a_exe_file 1 ?dg) True ?rq =
      ((''A'', True, None), ?rq')" by blast
  have sz2: "size_r (a_exe_file 2 ?dg) = 2" by (simp add: a_exe_file_def)
  from t2 [THEN conjunct2, THEN conjunct1] no2
  have r2: "downloadAndCheck sampleEnv (a_exe_file 2 ?dg) True ?rq =
      (([], True, Some (SizeMismatch ''a.exe'' 2 1)), ?rq')"
    by (simp add: nm sz2)
  from t3 [THEN conjunct2, THEN conjunct2, THEN conjunct1] no3
  have r3: "downloadAndCheck sampleEnv (a_exe_file 1 ?bad) True ?rq =
      (([], True, Some (DigestMismatch ''a.exe'')), ?rq')"
    by (simp add: nm)
  have tr: "traversed app_v1_session ''a.exe''" by code_simp
  have h2: "baseUrl app_v1_session = Some (the_URL ''http://h/app/v1/app.exe.manifest'')"
    by code_simp
  have h3: "URL_Parse sampleEnv (the_URL ''http://h/app/v1/app.exe.manifest'')
              (backslashToSlash ''a.exe'') = Inr (the_URL ''http://h/app/v1/a.exe'')"
    by code_simp
  have h4: "remoteFileInfo sampleEnv (the_URL ''http://h/app/v1/a.exe'')
              (entry ''2'' xmldsig_sha1 ?dg) = Inr (a_exe_file 2 ?dg)"
    by code_simp
  have h5: "True = (\<not> noSuffix app_v1_session)" by code_simp
  from t2 [THEN conjunct2, THEN conjunct2, THEN conjunct2, rule_format,
           of app_v1_session "''a.exe''" "the_URL ''http://h/app/v1/app.exe.manifest''"
              "the_URL ''http://h/app/v1/a.exe''" "entry ''2'' xmldsig_sha1 ?dg" 0 NonAssemblyFile]
       tr h2 h3 h4 h5 no2 have
    "\<exists>err co'. retrieveDeployedFile 0 sampleEnv app_v1_session ''a.exe''
           (entry ''2'' xmldsig_sha1 ?dg) NonAssemblyFile = Some (Some err, co') \<and>
        deployedFiles co' = deployedFiles app_v1_session \<and>
        map_of (deployedFiles co') ''a.exe'' = None"
    by blast
  then have r4: "deployedFiles
     (sessionAfter
        (retrieveDeployedFile 0 sampleEnv app_v1_session ''a.exe''
           (entry ''2'' xmldsig_sha1 ?dg) NonAssemblyFile)
        newClickOnce) = deployedFiles app_v1_session"
    and r5: "retrieveDeployedFile 0 sampleEnv app_v1_session ''a.exe''
           (entry ''2'' xmldsig_sha1 ?dg) NonAssemblyFile \<noteq> None"
    by (auto simp: sessionAfter_def)
  from f1 r1 r2 r3 tr r4 r5 show ?thesis by blast
qed

text \<open>
  C3. The claim asks that a download whose suffixed URL gives 404 and whose retry
  succeeds returns the bytes of the retry and sets the no-suffix flag of the session.
  In the application \<open>plain\<close> the file \<open>a.exe\<close> is served without suffix, with the
  declared size and digest. The request for \<open>a.exe.deploy\<close> gives 404 and the one
  retry for \<open>a.exe\<close> gives 200; the response that is read afterwards is the first one
  (the retry's is a variable of the inner block), so the 18 bytes of the 404 page are
  checked against the declared size 1: the download fails with a size mismatch, the
  no-suffix flag stays unset and the file is not in the result mapping.
\<close>

theorem C3_body_of_the_retry_is_not_read:
  "http_Get sampleEnv ''http://h/plain/a.exe'' =
     Inr \<lparr>StatusCode = 200, Body = Inr ''A'', RequestURL = the_URL ''http://h/plain/a.exe''\<rparr> \<and>
   fetchResponse sampleEnv plain_a_exe True [] =
     ((Inr (not_found_response ''http://h/plain/a.exe.deploy''), False),
      [''http://h/plain/a.exe.deploy'', ''http://h/plain/a.exe'']) \<and>
   downloadAndCheck sampleEnv plain_a_exe True [] =
     (([], False, Some (SizeMismatch ''a.exe'' 1 18)),
      [''http://h/plain/a.exe.deploy'', ''http://h/plain/a.exe'']) \<and>
   map_option fst
     (retrieveDeployedFile 0 sampleEnv plain_session ''a.exe''
        (entry ''1'' xmldsig_sha1 ''bc1M4j2I4u6VaLpUbAB8Y9kTHBs='') NonAssemblyFile) =
     Some (Some (SizeMismatch ''a.exe'' 1 18)) \<and>
   \<not> noSuffix
       (sessionAfter
          (retrieveDeployedFile 0 sampleEnv plain_session ''a.exe''
             (entry ''1'' xmldsig_sha1 ''bc1M4j2I4u6VaLpUbAB8Y9kTHBs='') NonAssemblyFile)
          plain_session) \<and>
   deployedFiles (sessionAfter (Get (Suc 0) sampleEnv plain_session []) plain_session) = []"
  by code_simp

text \<open>
  C4. The claim asks that with a non-empty subset only the entries whose file name is
  requested are written, and no manifest. \<open>retrieveDeployedFile\<close> enters the file name
  of every entry it downloads into the subset map (line 349), also that of a manifest
  which passed the filter as a manifest, and \<open>saveDeployedFile\<close> writes every entry
  whose file name is in the map. In the application \<open>app\<close>, \<open>Get\<close> with the subset
  \<open>a.exe\<close> and the output directory \<open>out\<close> writes \<open>out/v1/app.exe.manifest\<close> as
  well. In an offline session \<open>checkDownload\<close> sets flags of requested names only,
  and the same \<open>Get\<close> writes \<open>out/a.exe\<close> alone.
\<close>

theorem C4_traversed_manifest_is_saved:
  "map_option fst (Get (Suc 0) sampleEnv out_session [''a.exe'']) = Some None \<and>
   written (sessionAfter (Get (Suc 0) sampleEnv out_session [''a.exe'']) out_session) =
     [(''out/v1/app.exe.manifest'', body_app_manifest), (''out/a.exe'', ''A'')] \<and>
   hasKey (subset_co (sessionAfter (Get (Suc 0) sampleEnv out_session [''a.exe'']) out_session))
     ''app.exe.manifest'' \<and>
   map_option fst (Get 0 sampleEnv app_offline [''a.exe'']) = Some None \<and>
   written (sessionAfter (Get 0 sampleEnv app_offline [''a.exe'']) app_offline) =
     [(''out/a.exe'', ''A'')]"
  by code_simp

text \<open>
  C5, as amended. The size of an entry is read by \<open>strconv.Atoi\<close> for the \<open>int\<close> of
  the platform, of 32 or 64 bits. The size is parsed, with the value \<open>n\<close>, exactly when
  the size string is an optional sign followed by one or more decimal digits and its
  value \<open>n\<close> lies in the range of \<open>int\<close>; a negative size is accepted. Resolving the
  entry yields a remote file exactly when the size is parsed and the URI of the digest
  algorithm parses too: the remote file has the given URL, the size \<open>n\<close>, the digest of
  the entry and the lower-cased fragment of the URI. When the size is parsed and the URI
  does not parse, resolving fails with the error of \<open>url.Parse\<close>. When the size string
  is no such number, resolving fails with the error of \<open>Atoi\<close> for that string, the
  range error or the syntax error as \<open>atoiError\<close> says.
\<close>

theorem C5_size_is_a_signed_decimal:
  "(Atoi (IntSize E) (Size cb) = Inr n \<longleftrightarrow>
      signedDecimal (Size cb) n \<and> inRange (IntSize E) n) \<and>
   (remoteFileInfo E u cb = Inr rf \<longleftrightarrow>
      (\<exists>m a. signedDecimal (Size cb) m \<and> inRange (IntSize E) m \<and>
             url_Parse E (Algorithm (DigestMethod (Hash cb))) = Inr a \<and>
             rf = \<lparr>url = u, size_r = m, digest = DigestValue (Hash cb),
                   algorithm = strings_ToLower E (Fragment a)\<rparr>)) \<and>
   (\<forall>m msg. signedDecimal (Size cb) m \<and> inRange (IntSize E) m \<and>
             url_Parse E (Algorithm (DigestMethod (Hash cb))) = Inl msg \<longrightarrow>
             remoteFileInfo E u cb = Inl (LibraryError msg)) \<and>
   (\<not> (\<exists>m. signedDecimal (Size cb) m \<and> inRange (IntSize E) m) \<longrightarrow>
      remoteFileInfo E u cb = Inl (atoiError (IntSize E) (Size cb)))"
proof (intro conjI allI impI)
  show "Atoi (IntSize E) (Size cb) = Inr n \<longleftrightarrow>
      signedDecimal (Size cb) n \<and> inRange (IntSize E) n"
    by (rule Atoi_Inr_iff)
next
  show "remoteFileInfo E u cb = Inr rf \<longleftrightarrow>
      (\<exists>m a. signedDecimal (Size cb) m \<and> inRange (IntSize E) m \<and>
             url_Parse E (Algorithm (DigestMethod (Hash cb))) = Inr a \<and>
             rf = \<lparr>url = u, size_r = m, digest = DigestValue (Hash cb),
                   algorithm = strings_ToLower E (Fragment a)\<rparr>)"
  proof (cases "Atoi (IntSize E) (Size cb)")
    case (Inl e)
    then have "\<not> (signedDecimal (Size cb) m \<and> inRange (IntSize E) m)" for m
      using Atoi_Inr_iff [of "IntSize E" "Size cb" m] by simp
    with Inl show ?thesis by (auto simp: remoteFileInfo_def)
  next
    case k: (Inr k)
    have uniq: "m = k" if "signedDecimal (Size cb) m" "inRange (IntSize E) m" for m
      using that k Atoi_Inr_iff [of "IntSize E" "Size cb" m] by simp
    from k have kk: "signedDecimal (Size cb) k \<and> inRange (IntSize E) k"
      by (simp add: Atoi_Inr_iff)
    show ?thesis
    proof (cases "url_Parse E (Algorithm (DigestMethod (Hash cb)))")
      case (Inl msg)
      with k show ?thesis by (simp add: remoteFileInfo_def)
    next
      case a: (Inr a)
      with k have r: "remoteFileInfo E u cb =
          Inr \<lparr>url = u, size_r = k, digest = DigestValue (Hash cb),
               algorithm = strings_ToLower E (Fragment a)\<rparr>"
        by (simp add: remoteFileInfo_def)
      show ?thesis
      proof
        assume "remoteFileInfo E u cb = Inr rf"
        with r have "rf = \<lparr>url = u, size_r = k, digest = DigestValue (Hash cb),
                          algorithm = strings_ToLower E (Fragment a)\<rparr>"
          by simp
        with kk a show "\<exists>m a. signedDecimal (Size cb) m \<and> inRange (IntSize E) m \<and>
             url_Parse E (Algorithm (DigestMethod (Hash cb))) = Inr a \<and>
             rf = \<lparr>url = u, size_r = m, digest = DigestValue (Hash cb),
                   algorithm = strings_ToLower E (Fragment a)\<rparr>"
          by blast
      next
        assume "\<exists>m a. signedDecimal (Size cb) m \<and> inRange (IntSize E) m \<and>
             url_Parse E (Algorithm (DigestMethod (Hash cb))) = Inr a \<and>
             rf = \<lparr>url = u, size_r = m, digest = DigestValue (Hash cb),
                   algorithm = strings_ToLower E (Fragment a)\<rparr>"
        then obtain m a' where ma: "signedDecimal (Size cb) m" "inRange (IntSize E) m"
          "url_Parse E (Algorithm (DigestMethod (Hash cb))) = Inr a'"
          "rf = \<lparr>url = u, size_r = m, digest = DigestValue (Hash cb),
                 algorithm = strings_ToLower E (Fragment a')\<rparr>"
          by blast
        from uniq [OF ma(1,2)] ma(3) a have "m = k" "a' = a" by simp_all
        with ma(4) r show "remoteFileInfo E u cb = Inr rf" by simp
      qed
    qed
  qed
next
  fix m msg
  assume a: "signedDecimal (Size cb) m \<and> inRange (IntSize E) m \<and>
             url_Parse E (Algorithm (DigestMethod (Hash cb))) = Inl msg"
  then have "Atoi (IntSize E) (Size cb) = Inr m" by (simp add: Atoi_Inr_iff)
  with a show "remoteFileInfo E u cb = Inl (LibraryError msg)"
    by (simp add: remoteFileInfo_def)
next
  assume "\<not> (\<exists>m. signedDecimal (Size cb) m \<and> inRange (IntSize E) m)"
  from Atoi_Inl [OF this] show "remoteFileInfo E u cb = Inl (atoiError (IntSize E) (Size cb))"
    by (simp add: remoteFileInfo_def)
qed

text \<open>
  The claim as first stated asks for a non-negative integer. The size \<open>-5\<close> is
  resolved without error, and on a platform of 64 bits \<open>9223372036854775808\<close>, a
  non-negative integer, is refused.
\<close>

theorem C5_negative_size_counterexample:
  "remoteFileInfo sampleEnv (the_URL ''http://h/app/v1/a.exe'')
      (entry ''-5'' xmldsig_sha1 ''bc1M4j2I4u6VaLpUbAB8Y9kTHBs='') =
   Inr \<lparr>url = the_URL ''http://h/app/v1/a.exe'', size_r = - 5,
        digest = ''bc1M4j2I4u6VaLpUbAB8Y9kTHBs='', algorithm = ''sha1''\<rparr> \<and>
   remoteFileInfo sampleEnv (the_URL ''http://h/app/v1/a.exe'')
      (entry ''9223372036854775808'' xmldsig_sha1 ''bc1M4j2I4u6VaLpUbAB8Y9kTHBs='') =
   Inl (ErrRange ''9223372036854775808'')"
  by code_simp

theorem C5_witness:
  "\<not> (\<exists>m. signedDecimal ''abc'' m \<and> inRange (IntSize sampleEnv) m) \<and>
   remoteFileInfo sampleEnv (the_URL ''http://h/bad/c.bin'')
      (entry ''abc'' xmldsig_sha1 ''MtEMe4z5ZXDKBM438qGdhCQNOok='') = Inl (ErrSyntax ''abc'') \<and>
   \<not> (\<exists>m. signedDecimal ''99999999999999999999x'' m \<and> inRange (IntSize sampleEnv) m) \<and>
   remoteFileInfo sampleEnv (the_URL ''http://h/bad/c.bin'')
      (entry ''99999999999999999999x'' xmldsig_sha1 ''MtEMe4z5ZXDKBM438qGdhCQNOok='') =
     Inl (ErrRange ''99999999999999999999x'') \<and>
   signedDecimal ''5'' 5 \<and> inRange (IntSize sampleEnv) 5 \<and>
   url_Parse sampleEnv ''%zz'' = Inl ''invalid URL escape'' \<and>
   remoteFileInfo sampleEnv (the_URL ''http://h/bad/c.bin'')
      (entry ''5'' ''%zz'' ''MtEMe4z5ZXDKBM438qGdhCQNOok='') =
     Inl (LibraryError ''invalid URL escape'') \<and>
   remoteFileInfo sampleEnv (the_URL ''http://h/bad/c.bin'')
      (entry ''5'' xmldsig_sha1 ''MtEMe4z5ZXDKBM438qGdhCQNOok='') =
     Inr \<lparr>url = the_URL ''http://h/bad/c.bin'', size_r = 5,
          digest = ''MtEMe4z5ZXDKBM438qGdhCQNOok='', algorithm = ''sha1''\<rparr>"
proof -
  let ?u = "the_URL ''http://h/bad/c.bin''"
  let ?dg = "''MtEMe4z5ZXDKBM438qGdhCQNOok=''"
  let ?w = "IntSize sampleEnv"
  have no: "\<not> (\<exists>m. signedDecimal s m \<and> inRange ?w m)" if "Atoi ?w s = Inl e" for s e
    using that Atoi_Inr_iff [of ?w s] by auto
  have a1: "Atoi ?w ''abc'' = Inl (ErrSyntax ''abc'')" by code_simp
  have a2: "Atoi ?w ''99999999999999999999x'' = Inl (ErrRange ''99999999999999999999x'')"
    by code_simp
  have e1: "atoiError ?w ''abc'' = ErrSyntax ''abc''" by code_simp
  have e2: "atoiError ?w ''99999999999999999999x'' = ErrRange ''99999999999999999999x''"
    by code_simp
  have sz: "Size (entry s alg dg) = s"
    "Algorithm (DigestMethod (Hash (entry s alg dg))) = alg"
    "DigestValue (Hash (entry s alg dg)) = dg" for s alg dg
    by (simp_all add: entry_def)
  have a3: "Atoi ?w ''5'' = Inr 5" by code_simp
  then have five: "signedDecimal ''5'' 5 \<and> inRange ?w 5"
    by (simp only: Atoi_Inr_iff)
  have bad: "url_Parse sampleEnv ''%zz'' = Inl ''invalid URL escape''" by code_simp
  have good: "url_Parse sampleEnv xmldsig_sha1 =
      Inr (the_URL ''http://www.w3.org/2000/09/xmldsig#sha1'')"
    by code_simp
  have low: "strings_ToLower sampleEnv (Fragment (the_URL ''http://www.w3.org/2000/09/xmldsig#sha1'')) =
      ''sha1''"
    by code_simp
  note t1 = C5_size_is_a_signed_decimal [of sampleEnv "entry ''abc'' xmldsig_sha1 ?dg" 0 ?u,
      THEN conjunct2, THEN conjunct2, THEN conjunct2]
  note t2 = C5_size_is_a_signed_decimal
      [of sampleEnv "entry ''99999999999999999999x'' xmldsig_sha1 ?dg" 0 ?u,
       THEN conjunct2, THEN conjunct2, THEN conjunct2]
  note t3 = C5_size_is_a_signed_decimal [of sampleEnv "entry ''5'' ''%zz'' ?dg" 0 ?u,
      THEN conjunct2, THEN conjunct2, THEN conjunct1, rule_format,
      of 5 "''invalid URL escape''"]
  note t4 = C5_size_is_a_signed_decimal [of sampleEnv "entry ''5'' xmldsig_sha1 ?dg" 0 ?u
      "\<lparr>url = ?u, size_r = 5, digest = ?dg, algorithm = ''sha1''\<rparr>",
      THEN conjunct2, THEN conjunct1]
  from t1 no [OF a1] have r1: "remoteFileInfo sampleEnv ?u (entry ''abc'' xmldsig_sha1 ?dg) =
      Inl (ErrSyntax ''abc'')"
    by (simp add: sz e1)
  from t2 no [OF a2]
  have r2: "remoteFileInfo sampleEnv ?u (entry ''99999999999999999999x'' xmldsig_sha1 ?dg) =
      Inl (ErrRange ''99999999999999999999x'')"
    by (simp add: sz e2)
  from t3 five bad have r3: "remoteFileInfo sampleEnv ?u (entry ''5'' ''%zz'' ?dg) =
      Inl (LibraryError ''invalid URL escape'')"
    by (simp add: sz)
  from five good low have "\<exists>m a. signedDecimal ''5'' m \<and> inRange ?w m \<and>
      url_Parse sampleEnv xmldsig_sha1 = Inr a \<and>
      \<lparr>url = ?u, size_r = 5, digest = ?dg, algorithm = ''sha1''\<rparr> =
      \<lparr>url = ?u, size_r = m, digest = ?dg, algorithm = strings_ToLower sampleEnv (Fragment a)\<rparr>"
    by (intro exI [of _ 5] exI [of _ "the_URL ''http://www.w3.org/2000/09/xmldsig#sha1''"]) simp
  with t4 have r4: "remoteFileInfo sampleEnv ?u (entry ''5'' xmldsig_sha1 ?dg) =
      Inr \<lparr>url = ?u, size_r = 5, digest = ?dg, algorithm = ''sha1''\<rparr>"
    by (simp add: sz)
  from no [OF a1] r1 no [OF a2] r2 five bad r3 r4 show ?thesis by blast
qed






text \<open>
  C8. Let \<open>Get\<close> be called on an initialised session with a non-empty subset without
  empty names, and let it return. A requested name counts as found when its flag in the
  subset map is set, which is what \<open>findSubset\<close> tests; every found name is the file
  name of an entry of the result mapping that the saving step keeps. If no requested
  name is found, \<open>Get\<close> returns the not-found error. If some but not all are found,
  \<open>Get\<close> returns an error too: the error of a failed write, or else the error that
  not all requested files are found, and in this case, with an output directory set,
  every entry of the result mapping that passes the subset filter has been written.
\<close>

theorem C8_incomplete_subset_fails_after_saving:
  assumes init: "baseUrl co \<noteq> None" "assembly co \<noteq> None"
      and names: "requested \<noteq> []" "[] \<notin> set requested"
      and get: "Get n E co requested = Some (e, co')"
  shows "((\<forall>s\<in>set requested. \<not> flagOf (subset_co co') s) \<longrightarrow> e = Some NoneOfRequestedFound) \<and>
         ((\<exists>s\<in>set requested. flagOf (subset_co co') s) \<and>
          (\<exists>s\<in>set requested. \<not> flagOf (subset_co co') s) \<longrightarrow>
            e \<noteq> None \<and>
            (e = Some NotAllRequestedFound \<or> (\<exists>msg. e = Some (LibraryError msg))) \<and>
            (e = Some NotAllRequestedFound \<and> outputDir co' \<noteq> [] \<longrightarrow>
               (\<forall>p f. map_of (deployedFiles co') p = Some f \<and> keeps co' p \<longrightarrow>
                      savedFile E co' (p, f) \<in> set (written co')))) \<and>
         (\<forall>s\<in>set requested. flagOf (subset_co co') s \<longrightarrow>
            (\<exists>p. map_of (deployedFiles co') p \<noteq> None \<and> nameOf p = s \<and> keeps co' p))"
proof -
  from init obtain b asm where i: "baseUrl co = Some b" "assembly co = Some asm" by auto
  from Get_subset_finish [OF i names get] obtain co2 where
    fin: "Get_finish E co2 requested = (e, co')"
    and deployed: "\<And>k. flagOf (subset_co co2) k \<Longrightarrow>
                     \<exists>p. map_of (deployedFiles co2) p \<noteq> None \<and> nameOf p = k"
    by blast
  from Get_finish_fields [OF fin] obtain w where
    co': "co' = co2\<lparr>notFound := (if requested = [] then 0 else length (unflagged co2 requested)),
                   written := written co2 @ w\<rparr>"
    by blast
  then have same: "subset_co co' = subset_co co2" "deployedFiles co' = deployedFiles co2"
    "outputDir co' = outputDir co2"
    by simp_all
  have keeps: "keeps co' p = keeps co2 p" for p by (simp add: keeps_def same)
  have saved: "savedFile E co' kv = savedFile E co2 kv" for kv by (simp add: savedFile_def same)
  have 1: "e = Some NoneOfRequestedFound" if "\<forall>s\<in>set requested. \<not> flagOf (subset_co co') s"
    using Get_finish_none_found(1) [OF fin names(1)] that by (simp add: same)
  have 2: "e \<noteq> None \<and>
            (e = Some NotAllRequestedFound \<or> (\<exists>msg. e = Some (LibraryError msg))) \<and>
            (e = Some NotAllRequestedFound \<and> outputDir co' \<noteq> [] \<longrightarrow>
               (\<forall>p f. map_of (deployedFiles co') p = Some f \<and> keeps co' p \<longrightarrow>
                      savedFile E co' (p, f) \<in> set (written co')))"
    if some: "\<exists>s\<in>set requested. flagOf (subset_co co') s"
      and notall: "\<exists>s\<in>set requested. \<not> flagOf (subset_co co') s"
  proof -
    from some have some2: "\<exists>s\<in>set requested. flagOf (subset_co co2) s" by (simp add: same)
    from notall have notall2: "\<exists>s\<in>set requested. \<not> flagOf (subset_co co2) s" by (simp add: same)
    note f = Get_finish_some_found [OF fin names(1) some2]
    from f(2) [OF notall2] have a: "e \<noteq> None" .
    with f(1) have b: "e = Some NotAllRequestedFound \<or> (\<exists>msg. e = Some (LibraryError msg))"
      by blast
    have c: "savedFile E co' (p, f) \<in> set (written co')"
      if "e = Some NotAllRequestedFound" "outputDir co' \<noteq> []"
         "map_of (deployedFiles co') p = Some f" "keeps co' p" for p f
    proof -
      from that(1) f(4) that(2) have "written co' = written co2 @ savedList E co2 (deployedFiles co2)"
        by (simp add: same)
      moreover from that(3,4) have "savedFile E co2 (p, f) \<in> set (savedList E co2 (deployedFiles co2))"
        by (intro saved_member) (simp_all add: same keeps)
      ultimately show ?thesis by (simp add: saved)
    qed
    from a b c show ?thesis by blast
  qed
  have 3: "\<exists>p. map_of (deployedFiles co') p \<noteq> None \<and> nameOf p = s \<and> keeps co' p"
    if "flagOf (subset_co co') s" for s
  proof -
    from that deployed [of s] obtain p where
      p: "map_of (deployedFiles co') p \<noteq> None" "nameOf p = s"
      by (auto simp: same)
    from that have "hasKey (subset_co co') s"
      by (auto simp: flagOf_def hasKey_def split: option.splits)
    with p have "keeps co' p" by (simp add: keeps_def)
    with p show ?thesis by blast
  qed
  from 1 2 3 show ?thesis by blast
qed

theorem C8_witness:
  "baseUrl out_session \<noteq> None \<and> assembly out_session \<noteq> None \<and>
   \<not> flagOf (subset_co (sessionAfter (Get 1 sampleEnv out_session [''zz'']) out_session)) ''zz'' \<and>
   map_option fst (Get 1 sampleEnv out_session [''zz'']) = Some (Some NoneOfRequestedFound) \<and>
   flagOf (subset_co (sessionAfter (Get 1 sampleEnv out_session [''a.exe'', ''zz'']) out_session))
     ''a.exe'' \<and>
   \<not> flagOf (subset_co (sessionAfter (Get 1 sampleEnv out_session [''a.exe'', ''zz'']) out_session))
     ''zz'' \<and>
   map_option fst (Get 1 sampleEnv out_session [''a.exe'', ''zz'']) = Some (Some NotAllRequestedFound) \<and>
   (''out/a.exe'', ''A'') \<in>
     set (written (sessionAfter (Get 1 sampleEnv out_session [''a.exe'', ''zz'']) out_session))"
proof -
  let ?none = "Get 1 sampleEnv out_session [''zz'']"
  let ?part = "Get 1 sampleEnv out_session [''a.exe'', ''zz'']"
  have init: "baseUrl out_session \<noteq> None" "assembly out_session \<noteq> None" by code_simp+
  have n1: "[''zz''] \<noteq> []" "[] \<notin> set [''zz'']" by simp_all
  have n2: "[''a.exe'', ''zz''] \<noteq> []" "[] \<notin> set [''a.exe'', ''zz'']" by simp_all
  have "?none \<noteq> None" by code_simp
  then obtain e1 c1 where g1: "?none = Some (e1, c1)" by (cases ?none) auto
  have "?part \<noteq> None" by code_simp
  then obtain e2 c2 where g2: "?part = Some (e2, c2)" by (cases ?part) auto
  have c1: "sessionAfter ?none out_session = c1" using g1 by (simp add: sessionAfter_def)
  have c2: "sessionAfter ?part out_session = c2" using g2 by (simp add: sessionAfter_def)
  have f1: "\<not> flagOf (subset_co (sessionAfter ?none out_session)) ''zz''" by code_simp
  have f2: "flagOf (subset_co (sessionAfter ?part out_session)) ''a.exe''" by code_simp
  have f3: "\<not> flagOf (subset_co (sessionAfter ?part out_session)) ''zz''" by code_simp
  have e2: "map_option fst ?part = Some (Some NotAllRequestedFound)" by code_simp
  have o2: "outputDir (sessionAfter ?part out_session) \<noteq> []" by code_simp
  have m2: "map_of (deployedFiles (sessionAfter ?part out_session)) ''a.exe'' =
      Some \<lparr>Type = NonAssemblyFile, Content = ''A''\<rparr>" by code_simp
  have k2: "keeps (sessionAfter ?part out_session) ''a.exe''" by code_simp
  have s2: "savedFile sampleEnv (sessionAfter ?part out_session)
      (''a.exe'', \<lparr>Type = NonAssemblyFile, Content = ''A''\<rparr>) = (''out/a.exe'', ''A'')"
    by code_simp
  note t1 = C8_incomplete_subset_fails_after_saving [OF init n1 g1]
  note t2 = C8_incomplete_subset_fails_after_saving [OF init n2 g2]
  from f1 c1 have f1': "\<not> flagOf (subset_co c1) ''zz''" by simp
  from f2 c2 have f2': "flagOf (subset_co c2) ''a.exe''" by simp
  from f3 c2 have f3': "\<not> flagOf (subset_co c2) ''zz''" by simp
  from o2 c2 have o2': "outputDir c2 \<noteq> []" by simp
  from m2 c2 have m2': "map_of (deployedFiles c2) ''a.exe'' =
      Some \<lparr>Type = NonAssemblyFile, Content = ''A''\<rparr>" by simp
  from k2 c2 have k2': "keeps c2 ''a.exe''" by simp
  from s2 c2 have s2': "savedFile sampleEnv c2
      (''a.exe'', \<lparr>Type = NonAssemblyFile, Content = ''A''\<rparr>) = (''out/a.exe'', ''A'')"
    by simp
  from t1 f1' have r1: "e1 = Some NoneOfRequestedFound" by simp
  from e2 g2 have e2': "e2 = Some NotAllRequestedFound" by simp
  from t2 [THEN conjunct2, THEN conjunct1] f2' f3' e2' o2' m2' k2'
  have "savedFile sampleEnv c2 (''a.exe'', \<lparr>Type = NonAssemblyFile, Content = ''A''\<rparr>) \<in>
      set (written c2)"
    by auto
  with s2' c2 have r2: "(''out/a.exe'', ''A'') \<in> set (written (sessionAfter ?part out_session))"
    by simp
  from init f1 r1 g1 f2 f3 e2 r2 show ?thesis by simp
qed

text \<open>
  C9. An entry whose path is already a key of the result mapping is not retrieved again:
  \<open>retrieveDeployedFile\<close> returns nil and the session is the one it was given, so the
  entry of the mapping is not overwritten and no request is made. This holds for every
  bound on the depth, since the call does not descend.
\<close>

theorem C9_present_path_is_noop:
  assumes "map_of (deployedFiles co) p \<noteq> None"
  shows "retrieveDeployedFile n E co p cb t = Some (None, co)"
proof -
  from assms have "\<not> traversed co p" by (simp add: traversed_def)
  then have "retrieveStep E co p cb t = Some (Returned None, co)"
    by (rule retrieveStep_skipped)
  then show ?thesis by (simp add: retrieveDeployedFile.simps)
qed

theorem C9_witness:
  "map_of (deployedFiles (sessionAfter (Get 1 sampleEnv app_session []) app_session)) ''a.exe'' \<noteq> None \<and>
   retrieveDeployedFile 1 sampleEnv (sessionAfter (Get 1 sampleEnv app_session []) app_session)
     ''a.exe'' (entry ''1'' xmldsig_sha1 ''bc1M4j2I4u6VaLpUbAB8Y9kTHBs='') NonAssemblyFile =
   Some (None, sessionAfter (Get 1 sampleEnv app_session []) app_session)"
proof -
  have h: "map_of (deployedFiles (sessionAfter (Get 1 sampleEnv app_session []) app_session)) ''a.exe'' \<noteq> None"
    by code_simp
  from C9_present_path_is_noop [OF h] h show ?thesis by simp
qed

text \<open>
  C10. \<open>Get\<close> allocates the subset map only for a non-empty subset and nothing sets it
  back to nil. So let a session have a subset map \<open>m\<close>, and let \<open>Get\<close> with a nil or
  empty subset, or \<open>GetAll\<close>, return. Then the session still has a subset map, with
  the same names as \<open>m\<close> apart from names of manifests; every entry that the call has
  added to the result mapping is a manifest or has a file name in \<open>m\<close>; every file
  that the call has written belongs to an entry that is a manifest or has a file name in
  \<open>m\<close>; and, in the session as given, retrieving an entry that is no manifest and
  whose file name is not in \<open>m\<close> returns at once with the session unchanged.
\<close>

theorem C10_stale_filter_still_applies:
  assumes sub: "subset_co co = Some m"
      and run: "Get n E co [] = Some (e, co') \<or> GetAll n E co = Some (e, co')"
  shows "(\<exists>m'. subset_co co' = Some m' \<and>
            (\<forall>k. \<not> isManifest k \<longrightarrow> (m' k \<noteq> None) = (m k \<noteq> None))) \<and>
         (\<forall>p. map_of (deployedFiles co') p \<noteq> None \<and> map_of (deployedFiles co) p = None \<longrightarrow>
              isManifest (nameOf p) \<or> m (nameOf p) \<noteq> None) \<and>
         (\<exists>w. written co' = written co @ w \<and>
            (\<forall>x\<in>set w. \<exists>p f. (p, f) \<in> set (deployedFiles co') \<and> x = savedFile E co' (p, f) \<and>
                           (isManifest (nameOf p) \<or> m (nameOf p) \<noteq> None))) \<and>
         (\<forall>p cb t k. \<not> isManifest (nameOf p) \<and> m (nameOf p) = None \<longrightarrow>
              retrieveDeployedFile k E co p cb t = Some (None, co))"
proof -
  from run obtain c where get: "Get n E co [] = Some (e, c)" and
    c: "subset_co co' = subset_co c" "deployedFiles co' = deployedFiles c"
       "outputDir co' = outputDir c" "written co' = written c"
    using GetAll_steps [of n E co e co'] by blast
  from Get_all_steps [OF get] c obtain co2 w where
    k: "filterKept co co2" and wr: "written co2 = written co" and
    same: "subset_co co' = subset_co co2" "deployedFiles co' = deployedFiles co2"
      "outputDir co' = outputDir co2" and
    w: "written co' = written co2 @ w" "set w \<subseteq> set (savedList E co2 (deployedFiles co2))"
    by auto
  from sub have nn: "notNil (subset_co co)" by (simp add: notNil_def)
  with k have "notNil (subset_co co2)" by (simp add: filterKept_def)
  then obtain m' where m': "subset_co co2 = Some m'" by (auto dest: notNil_Some)
  have keys: "(m' k \<noteq> None) = (m k \<noteq> None)" if "\<not> isManifest k" for k
    using k that sub m' by (auto simp: filterKept_def hasKey_def)
  have new: "isManifest (nameOf p) \<or> m (nameOf p) \<noteq> None"
    if "map_of (deployedFiles co') p \<noteq> None" "map_of (deployedFiles co) p = None" for p
    using k that nn sub by (auto simp: filterKept_def same hasKey_def)
  have saved: "\<exists>p f. (p, f) \<in> set (deployedFiles co') \<and> x = savedFile E co' (p, f) \<and>
                 (isManifest (nameOf p) \<or> m (nameOf p) \<noteq> None)" if "x \<in> set w" for x
  proof -
    from that w(2) savedList_member obtain p f where
      p: "(p, f) \<in> set (deployedFiles co2)" "x = savedFile E co2 (p, f)" "keeps co2 p"
      by blast
    from p(3) m' have "m' (nameOf p) \<noteq> None" by (simp add: keeps_def notNil_def hasKey_def)
    with keys [of "nameOf p"] have "isManifest (nameOf p) \<or> m (nameOf p) \<noteq> None" by blast
    moreover have "savedFile E co2 (p, f) = savedFile E co' (p, f)"
      by (simp add: savedFile_def same)
    ultimately show ?thesis using p by (auto simp: same)
  qed
  have skip: "retrieveDeployedFile k E co p cb t = Some (None, co)"
    if "\<not> isManifest (nameOf p)" "m (nameOf p) = None" for p cb t k
  proof -
    from that sub have "\<not> traversed co p" by (simp add: traversed_def notNil_def hasKey_def)
    then show ?thesis by (simp add: retrieveStep_skipped retrieveDeployedFile.simps)
  qed
  from m' same keys have 1: "\<exists>m'. subset_co co' = Some m' \<and>
            (\<forall>k. \<not> isManifest k \<longrightarrow> (m' k \<noteq> None) = (m k \<noteq> None))"
    by simp
  from w wr saved have 3: "\<exists>w. written co' = written co @ w \<and>
            (\<forall>x\<in>set w. \<exists>p f. (p, f) \<in> set (deployedFiles co') \<and> x = savedFile E co' (p, f) \<and>
                           (isManifest (nameOf p) \<or> m (nameOf p) \<noteq> None))"
    by auto
  from 1 new 3 skip show ?thesis by blast
qed

theorem C10_witness:
  "notNil (subset_co bad_stale) \<and> \<not> hasKey (subset_co bad_stale) ''d.txt'' \<and>
   \<not> isManifest (nameOf ''d.txt'') \<and>
   GetAll (Suc 0) sampleEnv bad_stale \<noteq> None \<and>
   notNil (subset_co (sessionAfter (GetAll (Suc 0) sampleEnv bad_stale) bad_stale)) \<and>
   \<not> hasKey (subset_co (sessionAfter (GetAll (Suc 0) sampleEnv bad_stale) bad_stale)) ''d.txt'' \<and>
   map_of (deployedFiles (sessionAfter (GetAll (Suc 0) sampleEnv bad_stale) bad_stale)) ''d.txt'' = None \<and>
   retrieveDeployedFile 0 sampleEnv bad_stale ''d.txt''
     (entry ''1'' xmldsig_sha1 ''UMno1fyYcntLvJPPXWSmjbZH8E8='') NonAssemblyFile = Some (None, bad_stale) \<and>
   map_of (deployedFiles (sessionAfter (GetAll (Suc 0) sampleEnv bad_out) bad_out)) ''d.txt'' \<noteq> None"
proof -
  let ?run = "GetAll (Suc 0) sampleEnv bad_stale"
  have nn: "notNil (subset_co bad_stale)" by code_simp
  then obtain m where sub: "subset_co bad_stale = Some m" by (auto dest: notNil_Some)
  have nk: "\<not> hasKey (subset_co bad_stale) ''d.txt''" by code_simp
  with sub have md: "m ''d.txt'' = None" by (simp add: hasKey_def)
  have nm: "\<not> isManifest (nameOf ''d.txt'')" "nameOf ''d.txt'' = ''d.txt''" by code_simp+
  have r: "?run \<noteq> None" by code_simp
  then obtain e co' where g: "?run = Some (e, co')" by (cases ?run) auto
  then have co': "sessionAfter ?run bad_stale = co'" by (simp add: sessionAfter_def)
  have old: "map_of (deployedFiles bad_stale) ''d.txt'' = None" by code_simp
  have fresh: "map_of (deployedFiles (sessionAfter (GetAll (Suc 0) sampleEnv bad_out) bad_out))
      ''d.txt'' \<noteq> None" by code_simp
  note t = C10_stale_filter_still_applies [OF sub disjI2, OF g]
  from t obtain m' where m': "subset_co co' = Some m'"
    "\<forall>k. \<not> isManifest k \<longrightarrow> (m' k \<noteq> None) = (m k \<noteq> None)"
    by blast
  from m' nm md have a: "notNil (subset_co co')" "\<not> hasKey (subset_co co') ''d.txt''"
    by (auto simp: notNil_def hasKey_def)
  from t [THEN conjunct2, THEN conjunct1, rule_format, of "''d.txt''"] old nm md
  have b: "map_of (deployedFiles co') ''d.txt'' = None"
    by (cases "map_of (deployedFiles co') ''d.txt''") auto
  from t [THEN conjunct2, THEN conjunct2, THEN conjunct2, rule_format,
          of "''d.txt''" 0 "entry ''1'' xmldsig_sha1 ''UMno1fyYcntLvJPPXWSmjbZH8E8=''" NonAssemblyFile]
       nm md
  have c: "retrieveDeployedFile 0 sampleEnv bad_stale ''d.txt''
     (entry ''1'' xmldsig_sha1 ''UMno1fyYcntLvJPPXWSmjbZH8E8='') NonAssemblyFile = Some (None, bad_stale)"
    by simp
  from nn nk nm(1) r a b c fresh show ?thesis by (simp add: co')
qed

end
